theory Spec2Isabelle
  imports Complex_Main "HOL-Library.Multiset" "HOL-Library.Char_ord" "HOL-Library.List_Lexorder"
begin

section \<open>JavaScript values as the dashboards read them\<close>

text \<open>
  The dashboards fetch JSON and read scalar fields of each row. A field is absent
  (\<open>undefined\<close>), \<open>null\<close>, a boolean, a number or a string. A number is an IEEE double:
  a finite one is named by the rational it denotes, and comparing two finite doubles, or
  taking the sign of their difference, agrees with the same operation on those rationals.
  A string is the list of its code units; the model covers code units below 256.
\<close>

datatype jsnum = Fin rat | PosInf | NegInf | NaN

datatype jsval = JUndefined | JNull | JBool bool | JNum jsnum | JStr string

text \<open>
  What the engine supplies and the source only calls: \<open>Number::toString\<close>, the rounding of
  a parsed decimal to a double, and the collation behind \<open>String.prototype.localeCompare\<close>.
  They are parameters of the model.
\<close>

record host =
  NumberToString :: "jsnum \<Rightarrow> string"
  RoundMV :: "rat \<Rightarrow> jsnum"
  localeCompare :: "string \<Rightarrow> string \<Rightarrow> rat"

subsection \<open>Strings\<close>

definition isWhiteSpace :: "char \<Rightarrow> bool" where
  "isWhiteSpace c \<longleftrightarrow> (of_char c :: nat) \<in> {9, 10, 11, 12, 13, 32, 160}"

definition trim :: "string \<Rightarrow> string" where
  "trim s = rev (dropWhile isWhiteSpace (rev (dropWhile isWhiteSpace s)))"

definition toLowerChar :: "char \<Rightarrow> char" where
  "toLowerChar c =
     (let n = of_char c :: nat
      in if (65 \<le> n \<and> n \<le> 90) \<or> (192 \<le> n \<and> n \<le> 222 \<and> n \<noteq> 215)
         then char_of (n + 32) else c)"

definition toLowerCase :: "string \<Rightarrow> string" where
  "toLowerCase s = map toLowerChar s"

fun startsWith :: "string \<Rightarrow> string \<Rightarrow> bool" where
  "startsWith s [] = True"
| "startsWith [] (c # q) = False"
| "startsWith (d # s) (c # q) = (d = c \<and> startsWith s q)"

text \<open>\<open>s.includes(q)\<close>: some position of \<open>s\<close> starts an occurrence of \<open>q\<close>.\<close>

fun includes_js :: "string \<Rightarrow> string \<Rightarrow> bool" where
  "includes_js [] q = (q = [])"
| "includes_js (d # s) q = (startsWith (d # s) q \<or> includes_js s q)"

fun join :: "string \<Rightarrow> string list \<Rightarrow> string" where
  "join sep [] = []"
| "join sep [x] = x"
| "join sep (x # y # ys) = x @ sep @ join sep (y # ys)"

subsection \<open>Conversions\<close>

definition is_nullish :: "jsval \<Rightarrow> bool" where
  "is_nullish v \<longleftrightarrow> v = JUndefined \<or> v = JNull"

text \<open>\<open>v ?? d\<close>\<close>

definition nullish_or :: "jsval \<Rightarrow> jsval \<Rightarrow> jsval" where
  "nullish_or v d = (if is_nullish v then d else v)"

text \<open>\<open>Boolean(v)\<close>\<close>

fun truthy :: "jsval \<Rightarrow> bool" where
  "truthy JUndefined = False"
| "truthy JNull = False"
| "truthy (JBool b) = b"
| "truthy (JNum n) = (n \<noteq> NaN \<and> n \<noteq> Fin 0)"
| "truthy (JStr s) = (s \<noteq> [])"

text \<open>\<open>String(v)\<close>, also the conversion of a template literal and of \<open>join\<close>.\<close>

fun ToString :: "host \<Rightarrow> jsval \<Rightarrow> string" where
  "ToString h JUndefined = ''undefined''"
| "ToString h JNull = ''null''"
| "ToString h (JBool b) = (if b then ''true'' else ''false'')"
| "ToString h (JNum n) = NumberToString h n"
| "ToString h (JStr s) = s"

text \<open>\<open>Array.prototype.join\<close>: an element that is \<open>undefined\<close> or \<open>null\<close> prints as the empty string.\<close>

definition array_join :: "host \<Rightarrow> string \<Rightarrow> jsval list \<Rightarrow> string" where
  "array_join h sep vs = join sep (map (\<lambda>v. if is_nullish v then [] else ToString h v) vs)"

subsection \<open>\<open>Number(x)\<close>\<close>

text \<open>
  \<open>StringToNumber\<close> of ECMAScript: white space is stripped, the empty string is 0, and what
  remains must be a \<open>StrNumericLiteral\<close>: a binary, octal or hexadecimal integer, or an
  optionally signed decimal literal or \<open>Infinity\<close>. Anything else is \<open>NaN\<close>. The mathematical
  value of the literal is rounded to a double by the host.
\<close>

definition isDigit :: "char \<Rightarrow> bool" where
  "isDigit c \<longleftrightarrow> 48 \<le> (of_char c :: nat) \<and> (of_char c :: nat) \<le> 57"

definition digitValue :: "char \<Rightarrow> nat" where
  "digitValue c =
     (let n = of_char c :: nat
      in if 48 \<le> n \<and> n \<le> 57 then n - 48
         else if 97 \<le> n \<and> n \<le> 102 then n - 87
         else if 65 \<le> n \<and> n \<le> 70 then n - 55
         else 99)"

definition radixValue :: "nat \<Rightarrow> string \<Rightarrow> nat" where
  "radixValue base ds = foldl (\<lambda>a c. base * a + digitValue c) 0 ds"

definition radixDigits :: "nat \<Rightarrow> string \<Rightarrow> bool" where
  "radixDigits base ds \<longleftrightarrow> ds \<noteq> [] \<and> list_all (\<lambda>c. digitValue c < base) ds"

definition decimalDigits :: "string \<Rightarrow> int option" where
  "decimalDigits ds = (if radixDigits 10 ds then Some (int (radixValue 10 ds)) else None)"

fun signedInteger :: "string \<Rightarrow> int option" where
  "signedInteger [] = None"
| "signedInteger (c # ds) =
     (if c = CHR ''+'' then decimalDigits ds
      else if c = CHR ''-'' then map_option uminus (decimalDigits ds)
      else decimalDigits (c # ds))"

fun exponentPart :: "string \<Rightarrow> int option" where
  "exponentPart [] = Some 0"
| "exponentPart (c # r) = (if c = CHR ''e'' \<or> c = CHR ''E'' then signedInteger r else None)"

definition scale10 :: "rat \<Rightarrow> int \<Rightarrow> rat" where
  "scale10 x e = (if 0 \<le> e then x * 10 ^ nat e else x / 10 ^ nat (- e))"

text \<open>The mathematical value of a \<open>StrUnsignedDecimalLiteral\<close> other than \<open>Infinity\<close>.\<close>

definition unsignedDecimal :: "string \<Rightarrow> rat option" where
  "unsignedDecimal t =
     (let ip = takeWhile isDigit t; r1 = dropWhile isDigit t
      in case r1 of
           [] \<Rightarrow> if ip = [] then None else Some (of_nat (radixValue 10 ip))
         | c # r2 \<Rightarrow>
             if c = CHR ''.'' then
               (let fp = takeWhile isDigit r2; r3 = dropWhile isDigit r2
                in if ip = [] \<and> fp = [] then None
                   else (case exponentPart r3 of
                           None \<Rightarrow> None
                         | Some e \<Rightarrow>
                             Some (scale10 (of_nat (radixValue 10 ip)
                                            + of_nat (radixValue 10 fp) / 10 ^ length fp) e)))
             else if ip = [] then None
             else (case exponentPart r1 of
                     None \<Rightarrow> None
                   | Some e \<Rightarrow> Some (scale10 (of_nat (radixValue 10 ip)) e)))"

definition strUnsignedDecimalLiteral :: "host \<Rightarrow> string \<Rightarrow> jsnum" where
  "strUnsignedDecimalLiteral h u =
     (if u = ''Infinity'' then PosInf
      else case unsignedDecimal u of None \<Rightarrow> NaN | Some q \<Rightarrow> RoundMV h q)"

fun negate :: "jsnum \<Rightarrow> jsnum" where
  "negate (Fin q) = Fin (- q)"
| "negate PosInf = NegInf"
| "negate NegInf = PosInf"
| "negate NaN = NaN"

definition nonDecimalBase :: "string \<Rightarrow> nat option" where
  "nonDecimalBase t =
     (case t of
        z # c # ds \<Rightarrow>
          if z \<noteq> CHR ''0'' then None
          else if c = CHR ''b'' \<or> c = CHR ''B'' then Some 2
          else if c = CHR ''o'' \<or> c = CHR ''O'' then Some 8
          else if c = CHR ''x'' \<or> c = CHR ''X'' then Some 16
          else None
      | _ \<Rightarrow> None)"

definition StringToNumber :: "host \<Rightarrow> string \<Rightarrow> jsnum" where
  "StringToNumber h s =
     (let t = trim s
      in if t = [] then Fin 0
         else case nonDecimalBase t of
                Some base \<Rightarrow>
                  if radixDigits base (drop 2 t)
                  then RoundMV h (of_nat (radixValue base (drop 2 t))) else NaN
              | None \<Rightarrow>
                  if hd t = CHR ''+'' then strUnsignedDecimalLiteral h (tl t)
                  else if hd t = CHR ''-'' then negate (strUnsignedDecimalLiteral h (tl t))
                  else strUnsignedDecimalLiteral h t)"

fun Number :: "host \<Rightarrow> jsval \<Rightarrow> jsnum" where
  "Number h JUndefined = NaN"
| "Number h JNull = Fin 0"
| "Number h (JBool b) = (if b then Fin 1 else Fin 0)"
| "Number h (JNum n) = n"
| "Number h (JStr s) = StringToNumber h s"

section \<open>The vulnerability dashboards\<close>

text \<open>
  A row of \<open>results.json\<close> or of the \<open>vulnerabilities\<close> array of \<open>results2.json\<close>: an object
  whose fields are scalars, but for \<open>affected_packages\<close>. An element of \<open>affected_packages\<close>
  that is not an object reads as a package whose two fields are absent; \<open>None\<close> is a value
  that is not an array. An array element that is no object (on \<open>null\<close> the search text
  throws) and a structured value in a scalar field lie outside the model.
\<close>

record pkg =
  pkg_name :: jsval
  installed_version :: jsval

record vuln =
  cve_id :: jsval
  severity :: jsval
  vector :: jsval
  score_version :: jsval
  debsecan_status :: jsval
  base_score :: jsval
  exploitability :: jsval
  impact :: jsval
  affected_packages :: "pkg list option"

definition toText :: "host \<Rightarrow> jsval \<Rightarrow> string" where
  "toText h v = (if is_nullish v then [] else toLowerCase (ToString h v))"

subsection \<open>\<open>Array.prototype.sort\<close> with a comparator\<close>

text \<open>
  ECMAScript fixes the result of \<open>sort\<close> when the comparator is consistent: the elements in
  an order the comparator accepts, those it calls equal in their order of input. Insertion
  from the right computes that list.
\<close>

fun insert_by :: "('a \<Rightarrow> 'a \<Rightarrow> rat) \<Rightarrow> 'a \<Rightarrow> 'a list \<Rightarrow> 'a list" where
  "insert_by cmp x [] = [x]"
| "insert_by cmp x (y # ys) = (if cmp x y \<le> 0 then x # y # ys else y # insert_by cmp x ys)"

fun array_sort :: "('a \<Rightarrow> 'a \<Rightarrow> rat) \<Rightarrow> 'a list \<Rightarrow> 'a list" where
  "array_sort cmp [] = []"
| "array_sort cmp (x # xs) = insert_by cmp x (array_sort cmp xs)"

text \<open>A consistent comparator: the sign flips with the arguments, and \<open>\<le> 0\<close> is transitive.\<close>

definition consistent_comparator :: "('a \<Rightarrow> 'a \<Rightarrow> rat) \<Rightarrow> bool" where
  "consistent_comparator cmp \<longleftrightarrow>
     (\<forall>a b. (cmp a b < 0) = (0 < cmp b a)) \<and>
     (\<forall>a b c. cmp a b \<le> 0 \<longrightarrow> cmp b c \<le> 0 \<longrightarrow> cmp a c \<le> 0)"

text \<open>
  What ECMAScript requires of the array after \<open>sort\<close>: the same elements, no later element
  strictly before an earlier one, and elements that compare equal in their order of input.
\<close>

definition sort_contract :: "('a \<Rightarrow> 'a \<Rightarrow> rat) \<Rightarrow> 'a list \<Rightarrow> 'a list \<Rightarrow> bool" where
  "sort_contract cmp xs ys \<longleftrightarrow>
     mset ys = mset xs \<and>
     sorted_wrt (\<lambda>a b. cmp a b \<le> 0) ys \<and>
     (\<forall>k \<in> set xs. filter (\<lambda>y. cmp k y = 0) ys = filter (\<lambda>y. cmp k y = 0) xs)"

subsection \<open>\<open>CveDashboard.jsx\<close>, reading \<open>/results.json\<close>\<close>

definition cveToSearchableText :: "host \<Rightarrow> vuln \<Rightarrow> string" where
  "cveToSearchableText h row =
     join '' ''
       (map (toText h)
          [cve_id row, severity row, vector row, score_version row, base_score row,
           exploitability row, impact row])"

definition safeNumber :: "host \<Rightarrow> jsval \<Rightarrow> rat option" where
  "safeNumber h x = (case Number h x of Fin n \<Rightarrow> Some n | _ \<Rightarrow> None)"

text \<open>The comparator handed to \<open>sort\<close>; \<open>String(a?.cve_id ?? "")\<close> is \<open>id_text\<close>.\<close>

definition id_text :: "host \<Rightarrow> vuln \<Rightarrow> string" where
  "id_text h a = ToString h (nullish_or (cve_id a) (JStr []))"

definition compare_rows :: "host \<Rightarrow> vuln \<Rightarrow> vuln \<Rightarrow> rat" where
  "compare_rows h a b =
     (let an = safeNumber h (base_score a); bn = safeNumber h (base_score b)
      in if an \<noteq> None \<and> bn \<noteq> None then the bn - the an
         else if an \<noteq> None then - 1
         else if bn \<noteq> None then 1
         else localeCompare h (id_text h a) (id_text h b))"

definition severity_is :: "string \<Rightarrow> vuln \<Rightarrow> bool" where
  "severity_is sel r \<longleftrightarrow>
     (if sel = ''ALL'' then True else nullish_or (severity r) (JStr ''N/A'') = JStr sel)"

text \<open>
  \<open>filtered\<close> is one chain in the source: two \<open>filter\<close> calls, named \<open>matching\<close> here, then
  \<open>slice().sort(...)\<close>. \<open>query\<close> and \<open>sel\<close> are the component's state.
\<close>

definition matching :: "host \<Rightarrow> vuln list \<Rightarrow> string \<Rightarrow> string \<Rightarrow> vuln list" where
  "matching h rows query sel =
     (let q = toLowerCase (trim query)
      in filter (\<lambda>r. if q \<noteq> [] then includes_js (cveToSearchableText h r) q else True)
           (filter (severity_is sel) rows))"

definition filtered :: "host \<Rightarrow> vuln list \<Rightarrow> string \<Rightarrow> string \<Rightarrow> vuln list" where
  "filtered h rows query sel = array_sort (compare_rows h) (matching h rows query sel)"

subsection \<open>The dashboard reading \<open>/results2.json\<close>\<close>

definition safeNumber2 :: "host \<Rightarrow> jsval \<Rightarrow> rat option" where
  "safeNumber2 h x =
     (if is_nullish x then None
      else if (case x of JStr s \<Rightarrow> toLowerCase (trim s) = ''n/a'' | _ \<Rightarrow> False) then None
      else (case Number h x of Fin n \<Rightarrow> Some n | _ \<Rightarrow> None))"

definition packagesToText :: "host \<Rightarrow> pkg list option \<Rightarrow> string" where
  "packagesToText h pkgs =
     (case pkgs of
        None \<Rightarrow> []
      | Some ps \<Rightarrow>
          toLowerCase
            (join '' ''
               (filter (\<lambda>s. s \<noteq> [])
                  (map (\<lambda>p. trim (ToString h (nullish_or (pkg_name p) (JStr [])) @ '' '' @
                                  ToString h (nullish_or (installed_version p) (JStr []))))
                     ps))))"

definition vulnToSearchableText :: "host \<Rightarrow> vuln \<Rightarrow> string" where
  "vulnToSearchableText h v =
     join '' ''
       (map (toText h)
          [cve_id v, severity v, score_version v, vector v, debsecan_status v, base_score v,
           exploitability v, impact v, JStr (packagesToText h (affected_packages v))])"

definition compare_rows2 :: "host \<Rightarrow> vuln \<Rightarrow> vuln \<Rightarrow> rat" where
  "compare_rows2 h a b =
     (let an = safeNumber2 h (base_score a); bn = safeNumber2 h (base_score b)
      in if an \<noteq> None \<and> bn \<noteq> None then the bn - the an
         else if an \<noteq> None then - 1
         else if bn \<noteq> None then 1
         else localeCompare h (id_text h a) (id_text h b))"

definition debsecan_is :: "string \<Rightarrow> vuln \<Rightarrow> bool" where
  "debsecan_is sel r \<longleftrightarrow>
     (if sel = ''ALL'' then True else nullish_or (debsecan_status r) (JStr ''N/A'') = JStr sel)"

definition matching2 :: "host \<Rightarrow> vuln list \<Rightarrow> string \<Rightarrow> string \<Rightarrow> string \<Rightarrow> vuln list" where
  "matching2 h rows query sel deb =
     (let q = toLowerCase (trim query)
      in filter (\<lambda>r. if q \<noteq> [] then includes_js (vulnToSearchableText h r) q else True)
           (filter (debsecan_is deb) (filter (severity_is sel) rows)))"

definition filtered2 :: "host \<Rightarrow> vuln list \<Rightarrow> string \<Rightarrow> string \<Rightarrow> string \<Rightarrow> vuln list" where
  "filtered2 h rows query sel deb =
     array_sort (compare_rows2 h) (matching2 h rows query sel deb)"

subsection \<open>The order the comparators define\<close>

text \<open>
  Both comparators have one shape, over the dashboard's own \<open>safeNumber\<close>: the difference
  of two scores, a scored row before an unscored one, and the fallback for two unscored rows.
\<close>

definition order_key_compare ::
  "('a \<Rightarrow> rat option) \<Rightarrow> ('a \<Rightarrow> 'a \<Rightarrow> rat) \<Rightarrow> 'a \<Rightarrow> 'a \<Rightarrow> rat" where
  "order_key_compare sc fb a b =
     (case (sc a, sc b) of
        (Some x, Some y) \<Rightarrow> y - x
      | (Some x, None) \<Rightarrow> - 1
      | (None, Some y) \<Rightarrow> 1
      | (None, None) \<Rightarrow> fb a b)"

text \<open>
  \<open>shown_before sn h a b\<close>: row \<open>a\<close> may stand before row \<open>b\<close> in the table. Two scored rows:
  the score of \<open>a\<close> is not the smaller one. An unscored row never stands before a scored
  one. Two unscored rows: the collation does not put the identifier of \<open>b\<close> first.
\<close>

definition shown_before :: "(jsval \<Rightarrow> rat option) \<Rightarrow> host \<Rightarrow> vuln \<Rightarrow> vuln \<Rightarrow> bool" where
  "shown_before sn h a b =
     (case (sn (base_score a), sn (base_score b)) of
        (Some x, Some y) \<Rightarrow> y \<le> x
      | (Some x, None) \<Rightarrow> True
      | (None, Some y) \<Rightarrow> False
      | (None, None) \<Rightarrow> localeCompare h (id_text h a) (id_text h b) \<le> 0)"

text \<open>
  The order as the specification words it: as above, and two rows of equal score in the
  order of their identifiers.
\<close>

definition specified_before :: "(jsval \<Rightarrow> rat option) \<Rightarrow> host \<Rightarrow> vuln \<Rightarrow> vuln \<Rightarrow> bool" where
  "specified_before sn h a b =
     (case (sn (base_score a), sn (base_score b)) of
        (Some x, Some y) \<Rightarrow>
          y < x \<or> (y = x \<and> localeCompare h (id_text h a) (id_text h b) \<le> 0)
      | (Some x, None) \<Rightarrow> True
      | (None, Some y) \<Rightarrow> False
      | (None, None) \<Rightarrow> localeCompare h (id_text h a) (id_text h b) \<le> 0)"

section \<open>The users dashboard\<close>

record address =
  street :: jsval
  suite :: jsval
  city :: jsval
  zipcode :: jsval

record company =
  company_name :: jsval
  catchPhrase :: jsval

text \<open>\<open>None\<close> for \<open>address\<close> or \<open>company\<close> is a value that is not truthy.\<close>

record user =
  user_id :: jsval
  user_name :: jsval
  username :: jsval
  email :: jsval
  phone :: jsval
  website :: jsval
  user_company :: "company option"
  user_address :: "address option"

definition userToSearchableText :: "host \<Rightarrow> user \<Rightarrow> string" where
  "userToSearchableText h u =
     (let address =
            (case user_address u of
               Some a \<Rightarrow>
                 ToString h (nullish_or (street a) (JStr [])) @ '' '' @
                 ToString h (nullish_or (suite a) (JStr [])) @ '' '' @
                 ToString h (nullish_or (city a) (JStr [])) @ '' '' @
                 ToString h (nullish_or (zipcode a) (JStr []))
             | None \<Rightarrow> []);
          company =
            (case user_company u of
               Some c \<Rightarrow>
                 ToString h (nullish_or (company_name c) (JStr [])) @ '' '' @
                 ToString h (nullish_or (catchPhrase c) (JStr []))
             | None \<Rightarrow> [])
      in toLowerCase
           (array_join h '' ''
              (filter truthy
                 [user_id u, user_name u, username u, email u, phone u, website u,
                  JStr company, JStr address])))"

definition filteredUsers :: "host \<Rightarrow> user list \<Rightarrow> string \<Rightarrow> user list" where
  "filteredUsers h users query =
     (let q = toLowerCase (trim query)
      in if q = [] then users
         else filter (\<lambda>u. includes_js (userToSearchableText h u) q) users)"

subsection \<open>The searchable text, field by field\<close>

text \<open>
  The text of one part of a company or an address, \<open>${v ?? ""}\<close>: nothing for an absent or
  \<open>null\<close> part.
\<close>

definition part_text :: "host \<Rightarrow> jsval \<Rightarrow> string" where
  "part_text h v = (case v of JUndefined \<Rightarrow> [] | JNull \<Rightarrow> [] | _ \<Rightarrow> ToString h v)"

definition company_text :: "host \<Rightarrow> user \<Rightarrow> string" where
  "company_text h u =
     (case user_company u of
        None \<Rightarrow> []
      | Some c \<Rightarrow> part_text h (company_name c) @ '' '' @ part_text h (catchPhrase c))"

definition address_text :: "host \<Rightarrow> user \<Rightarrow> string" where
  "address_text h u =
     (case user_address u of
        None \<Rightarrow> []
      | Some a \<Rightarrow>
          part_text h (street a) @ '' '' @ part_text h (suite a) @ '' '' @
          part_text h (city a) @ '' '' @ part_text h (zipcode a))"

text \<open>
  The texts that are searched, in their order: those of id, name, username, email, phone and
  website that are truthy, then the company text and the address text where they are not
  empty.
\<close>

definition searched_texts :: "host \<Rightarrow> user \<Rightarrow> string list" where
  "searched_texts h u =
     map (ToString h)
       (filter truthy [user_id u, user_name u, username u, email u, phone u, website u]) @
     filter (\<lambda>s. s \<noteq> []) [company_text h u, address_text h u]"

text \<open>
  The searchable text as the claim words it: the lower-cased concatenation of the id, name,
  username, email, phone, website, company and address fields, every one of them.
\<close>

definition concatenated_text :: "host \<Rightarrow> user \<Rightarrow> string" where
  "concatenated_text h u =
     toLowerCase
       (join '' ''
          (map (part_text h) [user_id u, user_name u, username u, email u, phone u, website u] @
           [company_text h u, address_text h u]))"

section \<open>A host and rows for evaluation\<close>

text \<open>
  A host to evaluate the definitions on: strings are collated by code unit, a decimal literal
  is taken at its mathematical value, and a number prints as its decimal expansion (cut
  after 17 places).
\<close>

definition code_unit_order :: "string \<Rightarrow> string \<Rightarrow> rat" where
  "code_unit_order a b = (if a < b then - 1 else if b < a then 1 else 0)"

fun digits_of :: "nat \<Rightarrow> string" where
  "digits_of n =
     (if n < 10 then [char_of (48 + n)]
      else digits_of (n div 10) @ [char_of (48 + n mod 10)])"

fun fraction_digits :: "nat \<Rightarrow> rat \<Rightarrow> string" where
  "fraction_digits k r =
     (if k = 0 \<or> r = 0 then []
      else char_of (48 + nat \<lfloor>r * 10\<rfloor>) #
           fraction_digits (k - 1) (r * 10 - of_int \<lfloor>r * 10\<rfloor>))"

definition print_number :: "jsnum \<Rightarrow> string" where
  "print_number n =
     (case n of
        Fin q \<Rightarrow>
          (if q < 0 then ''-'' else []) @ digits_of (nat \<lfloor>\<bar>q\<bar>\<rfloor>) @
          (if \<bar>q\<bar> = of_int \<lfloor>\<bar>q\<bar>\<rfloor> then []
           else ''.'' @ fraction_digits 17 (\<bar>q\<bar> - of_int \<lfloor>\<bar>q\<bar>\<rfloor>))
      | PosInf \<Rightarrow> ''Infinity''
      | NegInf \<Rightarrow> ''-Infinity''
      | NaN \<Rightarrow> ''NaN'')"

definition sample_host :: host where
  "sample_host = \<lparr>NumberToString = print_number, RoundMV = Fin, localeCompare = code_unit_order\<rparr>"

text \<open>A row with an identifier and a score, every other field \<open>null\<close>.\<close>

definition row :: "string \<Rightarrow> jsval \<Rightarrow> vuln" where
  "row i s =
     \<lparr>cve_id = JStr i, severity = JNull, vector = JNull, score_version = JNull,
      debsecan_status = JNull, base_score = s, exploitability = JNull, impact = JNull,
      affected_packages = None\<rparr>"

text \<open>Two users as the placeholder API returns them; the second has no company.\<close>

definition leanne :: user where
  "leanne =
     \<lparr>user_id = JNum (Fin 1), user_name = JStr ''Leanne Graham'', username = JStr ''Bret'',
      email = JStr ''Sincere@april.biz'', phone = JStr ''1-770-736-8031 x56442'',
      website = JStr ''hildegard.org'',
      user_company =
        Some \<lparr>company_name = JStr ''Romaguera-Crona'',
              catchPhrase = JStr ''Multi-layered client-server neural-net''\<rparr>,
      user_address =
        Some \<lparr>street = JStr ''Kulas Light'', suite = JStr ''Apt. 556'', city = JStr ''Gwenborough'',
              zipcode = JStr ''92998-3874''\<rparr>\<rparr>"

definition ervin :: user where
  "ervin =
     \<lparr>user_id = JNum (Fin 2), user_name = JStr ''Ervin Howell'', username = JStr ''Antonette'',
      email = JStr ''Shanna@melissa.tv'', phone = JNull, website = JStr [],
      user_company = None,
      user_address =
        Some \<lparr>street = JStr ''Victor Plains'', suite = JUndefined, city = JStr ''Wisokyburgh'',
              zipcode = JStr ''90566-7771''\<rparr>\<rparr>"

text \<open>A user whose id is 0.\<close>

definition zero :: user where
  "zero =
     \<lparr>user_id = JNum (Fin 0), user_name = JStr ''Bob'', username = JStr ''bob7'',
      email = JStr ''bob@example.org'', phone = JNull, website = JNull,
      user_company = None, user_address = None\<rparr>"

text \<open>
  A second host. Its collation reads a with diaeresis (code unit 228) as a, as a German
  dictionary does, so that it comes before z; by code unit, as in Swedish, it comes after z.
\<close>

definition fold_diaeresis :: "char \<Rightarrow> char" where
  "fold_diaeresis c = (if c = CHR 0xE4 then CHR ''a'' else c)"

definition dictionary_order :: "string \<Rightarrow> string \<Rightarrow> rat" where
  "dictionary_order a b = code_unit_order (map fold_diaeresis a) (map fold_diaeresis b)"

definition dictionary_host :: host where
  "dictionary_host =
     \<lparr>NumberToString = print_number, RoundMV = Fin, localeCompare = dictionary_order\<rparr>"

section \<open>The scan service, from its specification\<close>

text \<open>
  The service's Python modules are not among the sources: only its README is. The
  definitions of this section follow the specification, section by section. Time is a
  number of seconds. The bounded worker pool of the specification is run one identifier
  after the other.
\<close>

text \<open>Modelled from the spec: a vulnerability identifier, "a unique string" (glossary).\<close>

type_synonym cve_name = string

text \<open>
  Modelled from the spec: the AffectedPackage of section 3, package name and installed
  version string.
\<close>

type_synonym affected_package = "string \<times> string"

text \<open>
  Modelled from the spec: the scoring-scheme versions, newest to oldest; the README names
  them CVSS v4.0, v3.1 and v2.
\<close>

datatype scheme = V40 | V31 | V2

text \<open>
  Modelled from the spec: the score the Score Resolver returns for an identifier (module
  \<open>vulndb_client\<close> is missing), its base score and the scoring-scheme version that gave it.
\<close>

record score_payload =
  base :: rat
  version :: scheme

text \<open>
  Modelled from the spec: the VulnerabilityRecord of section 3 (module \<open>models\<close> is missing):
  identifier, status of the remote tool, affected packages, and the score when one was
  resolved.
\<close>

record vulnerability_record =
  vr_id :: cve_name
  vr_status :: string
  vr_packages :: "affected_package list"
  vr_score :: "score_payload option"

text \<open>
  Modelled from the spec: one record of the remote tool's output as the Vulnerability Scan
  Parser of section 4.3 reads it (module \<open>platform_connector\<close> is missing): malformed, or
  an identifier with its status and packages.
\<close>

datatype raw_record = Malformed | Detail cve_name string "affected_package list"

text \<open>
  Modelled from the spec: section 4.3, "multiple input lines referencing the same identifier
  are merged into one record with a unioned package list". The parser's merge is missing.
\<close>

fun merge_record ::
  "cve_name \<Rightarrow> string \<Rightarrow> affected_package list \<Rightarrow> vulnerability_record list \<Rightarrow>
   vulnerability_record list" where
  "merge_record i s ps [] = [\<lparr>vr_id = i, vr_status = s, vr_packages = remdups ps, vr_score = None\<rparr>]"
| "merge_record i s ps (r # rs) =
     (if vr_id r = i then r\<lparr>vr_packages := List.union (vr_packages r) ps\<rparr> # rs
      else r # merge_record i s ps rs)"

text \<open>
  Modelled from the spec: section 4.3, "malformed records are skipped and counted
  (\<open>parse_errors\<close>), never abort the scan". The parser's loop is missing; the accumulator is
  the records so far and the count of parse errors.
\<close>

fun parse_from ::
  "vulnerability_record list \<times> nat \<Rightarrow> raw_record list \<Rightarrow> vulnerability_record list \<times> nat" where
  "parse_from acc [] = acc"
| "parse_from (vs, n) (Malformed # raws) = parse_from (vs, n + 1) raws"
| "parse_from (vs, n) (Detail i s ps # raws) = parse_from (merge_record i s ps vs, n) raws"

text \<open>Modelled from the spec: the parser of section 4.3, from no record and no error.\<close>

definition parse_output :: "raw_record list \<Rightarrow> vulnerability_record list \<times> nat" where
  "parse_output raws = parse_from ([], 0) raws"

text \<open>
  Modelled from the spec: the CacheEntry of section 3 (module \<open>cache\<close> is missing), the
  resolved score and the time of its resolution.
\<close>

record cache_entry =
  payload :: score_payload
  resolved_at :: int

text \<open>
  Modelled from the spec: the process configuration of section 6 that the cache reads, its
  enable flag and its TTL in seconds.
\<close>

record cache_config =
  cache_enabled :: bool
  cache_ttl :: int

text \<open>
  Modelled from the spec: the state that outlives a request, the Score Cache of section
  4.5 as a keyed store, and a log of the external lookups issued (time and identifier, the
  latest first), kept to count them.
\<close>

record resolver_state =
  cache :: "cve_name \<Rightarrow> cache_entry option"
  lookup_log :: "(int \<times> cve_name) list"

text \<open>
  Modelled from the spec: section 4.5, \<open>get\<close>: "absent also returned if present but past
  TTL"; section 3, an entry is read "while \<open>now - timestamp < TTL\<close>"; a disabled cache
  always misses.
\<close>

definition cache_get ::
  "cache_config \<Rightarrow> int \<Rightarrow> resolver_state \<Rightarrow> cve_name \<Rightarrow> cache_entry option" where
  "cache_get cfg now st i =
     (if cache_enabled cfg then
        (case cache st i of
           Some e \<Rightarrow> if now - resolved_at e < cache_ttl cfg then Some e else None
         | None \<Rightarrow> None)
      else None)"

text \<open>
  Modelled from the spec: section 4.5, \<open>put\<close>; the entry is overwritten; a disabled cache
  writes nothing.
\<close>

definition cache_put ::
  "cache_config \<Rightarrow> int \<Rightarrow> cve_name \<Rightarrow> score_payload \<Rightarrow> resolver_state \<Rightarrow> resolver_state" where
  "cache_put cfg now i p st =
     (if cache_enabled cfg
      then st\<lparr>cache := (cache st)(i \<mapsto> \<lparr>payload = p, resolved_at = now\<rparr>)\<rparr>
      else st)"

text \<open>
  Modelled from the spec: the external scoring authority as the Score Resolver sees it: at
  a time, for an identifier, the score its lookup yields, or none (no score for the
  identifier, or a failed call). The fallback across scheme versions lies inside it.
\<close>

type_synonym authority = "int \<Rightarrow> cve_name \<Rightarrow> score_payload option"

text \<open>
  Modelled from the spec: section 4.4, \<open>resolve\<close>: "a cache hit within TTL short-circuits
  all external calls. On a cache miss it performs the external lookup, and on success writes
  through to the cache with the current timestamp"; a failed lookup is Unresolved and
  writes nothing.
\<close>

definition resolve ::
  "cache_config \<Rightarrow> authority \<Rightarrow> int \<Rightarrow> cve_name \<Rightarrow> resolver_state \<Rightarrow>
   score_payload option \<times> resolver_state" where
  "resolve cfg auth now i st =
     (case cache_get cfg now st i of
        Some e \<Rightarrow> (Some (payload e), st)
      | None \<Rightarrow>
          (let st1 = st\<lparr>lookup_log := (now, i) # lookup_log st\<rparr>
           in case auth now i of
                Some p \<Rightarrow> (Some p, cache_put cfg now i p st1)
              | None \<Rightarrow> (None, st1)))"

text \<open>
  Modelled from the spec: section 4.6, steps 3 and 4: every record's identifier is
  resolved and the result merged back onto the record.
\<close>

fun resolve_all ::
  "cache_config \<Rightarrow> authority \<Rightarrow> int \<Rightarrow> vulnerability_record list \<Rightarrow> resolver_state \<Rightarrow>
   vulnerability_record list \<times> resolver_state" where
  "resolve_all cfg auth now [] st = ([], st)"
| "resolve_all cfg auth now (r # rs) st =
     (let (res, st1) = resolve cfg auth now (vr_id r) st;
          (rs', st2) = resolve_all cfg auth now rs st1
      in (r\<lparr>vr_score := res\<rparr> # rs', st2))"

text \<open>
  Modelled from the spec: the fields of the ScanRequest of section 3 that the pipeline's
  data path reads, the severity threshold and the flag to include unscored records.
\<close>

record scan_request =
  vuln_score :: rat
  show_unscored :: bool

text \<open>
  Modelled from the spec: section 4.6, step 5: "drop records whose score is below the
  requested threshold; additionally drop unresolved records unless \<open>show_unscored\<close> is set".
\<close>

definition keep_record :: "scan_request \<Rightarrow> vulnerability_record \<Rightarrow> bool" where
  "keep_record req r =
     (case vr_score r of
        Some p \<Rightarrow> vuln_score req \<le> base p
      | None \<Rightarrow> show_unscored req)"

text \<open>Modelled from the spec: the errors of section 7 that abort a request.\<close>

datatype scan_error = ConnectivityError | ScanToolError

text \<open>
  Modelled from the spec: the ScanSummary of section 3, without its count per scheme
  version.
\<close>

record scan_summary =
  threshold_cvss :: rat
  matched_cvss_ge_threshold :: nat
  no_cvss_metrics :: nat
  parse_errors :: nat
  total_cves_seen :: nat
  total_records_output :: nat

text \<open>Modelled from the spec: the response of section 6, without the platform facts.\<close>

record scan_response =
  vulnerabilities :: "vulnerability_record list"
  summary :: scan_summary

text \<open>
  Modelled from the spec: section 4.6, the records of a scan after parsing and resolution,
  before the filter.
\<close>

definition resolved_records ::
  "cache_config \<Rightarrow> authority \<Rightarrow> int \<Rightarrow> raw_record list \<Rightarrow> resolver_state \<Rightarrow>
   vulnerability_record list \<times> resolver_state" where
  "resolved_records cfg auth now raws st = resolve_all cfg auth now (fst (parse_output raws)) st"

text \<open>
  Modelled from the spec: the Scan Orchestrator of section 4.6. The remote session either
  fails, which fails the request, or yields the tool's records; then parse, resolve, filter,
  summarise.
\<close>

definition run_scan ::
  "cache_config \<Rightarrow> authority \<Rightarrow> int \<Rightarrow> scan_request \<Rightarrow> scan_error + raw_record list \<Rightarrow>
   resolver_state \<Rightarrow> (scan_error + scan_response) \<times> resolver_state" where
  "run_scan cfg auth now req remote st =
     (case remote of
        Inl e \<Rightarrow> (Inl e, st)
      | Inr raws \<Rightarrow>
          (let (rs, st') = resolved_records cfg auth now raws st;
               out = filter (keep_record req) rs
           in (Inr \<lparr>vulnerabilities = out,
                    summary =
                      \<lparr>threshold_cvss = vuln_score req,
                       matched_cvss_ge_threshold =
                         length (filter (\<lambda>r. case vr_score r of
                                                Some p \<Rightarrow> vuln_score req \<le> base p
                                              | None \<Rightarrow> False) rs),
                       no_cvss_metrics = length (filter (\<lambda>r. vr_score r = None) rs),
                       parse_errors = snd (parse_output raws),
                       total_cves_seen = length rs,
                       total_records_output = length out\<rparr>\<rparr>,
               st')))"

text \<open>
  Modelled from the spec: section 8, "two raw scan-output lines for the same identifier ...
  yield one output record whose package list is the union": the packages that the lines of
  the tool's output list for an identifier, line after line, and the identifiers of the
  well-formed lines.
\<close>

fun lines_packages :: "cve_name \<Rightarrow> raw_record list \<Rightarrow> affected_package list" where
  "lines_packages i [] = []"
| "lines_packages i (Malformed # raws) = lines_packages i raws"
| "lines_packages i (Detail j s ps # raws) =
     (if j = i then ps @ lines_packages i raws else lines_packages i raws)"

fun lines_identifiers :: "raw_record list \<Rightarrow> cve_name list" where
  "lines_identifiers [] = []"
| "lines_identifiers (Malformed # raws) = lines_identifiers raws"
| "lines_identifiers (Detail j s ps # raws) = j # lines_identifiers raws"

text \<open>Values to evaluate the service on.\<close>

definition day_cache :: cache_config where
  "day_cache = \<lparr>cache_enabled = True, cache_ttl = 86400\<rparr>"

definition cold :: resolver_state where
  "cold = \<lparr>cache = (\<lambda>i. None), lookup_log = []\<rparr>"

definition nvd :: authority where
  "nvd = (\<lambda>t i. if i = ''CVE-2013-7445'' then Some \<lparr>base = 39 / 5, version = V2\<rparr>
                 else if i = ''CVE-2024-0001'' then Some \<lparr>base = 5, version = V31\<rparr>
                 else None)"

definition debsecan_output :: "raw_record list" where
  "debsecan_output =
     [Detail ''CVE-2013-7445'' ''unknown'' [(''linux-image'', ''6.12.47-1'')],
      Malformed,
      Detail ''CVE-2024-0001'' ''fixed'' [(''openssl'', ''3.0.1'')],
      Detail ''CVE-2013-7445'' ''unknown'' [(''linux-headers'', ''6.12.47-1''), (''linux-image'', ''6.12.47-1'')],
      Detail ''CVE-2020-9999'' ''unknown'' [(''zlib'', ''1.2'')]]"

section \<open>The dashboards: proofs\<close>

subsection \<open>Sorting with a consistent comparator\<close>

lemma mset_insert_by: "mset (insert_by cmp x ys) = add_mset x (mset ys)"
  by (induction ys) auto

lemma mset_array_sort: "mset (array_sort cmp xs) = mset xs"
  by (induction xs) (auto simp: mset_insert_by)

lemma set_insert_by: "set (insert_by cmp x ys) = insert x (set ys)"
  by (induction ys) auto

lemma set_array_sort: "set (array_sort cmp xs) = set xs"
  by (induction xs) (auto simp: set_insert_by)

lemma consistent_total:
  "consistent_comparator cmp \<Longrightarrow> \<not> cmp a b \<le> 0 \<Longrightarrow> cmp b a \<le> 0"
  unfolding consistent_comparator_def by (metis less_le_not_le linorder_not_le)

lemma consistent_trans:
  "consistent_comparator cmp \<Longrightarrow> cmp a b \<le> 0 \<Longrightarrow> cmp b c \<le> 0 \<Longrightarrow> cmp a c \<le> 0"
  unfolding consistent_comparator_def by blast

lemma consistent_sym:
  "consistent_comparator cmp \<Longrightarrow> cmp a b = 0 \<Longrightarrow> cmp b a = 0"
  unfolding consistent_comparator_def by (metis less_irrefl linorder_neqE_linordered_idom)

lemma consistent_refl: "consistent_comparator cmp \<Longrightarrow> cmp a a = 0"
  unfolding consistent_comparator_def by (metis less_asym linorder_neqE_linordered_idom)

lemma consistent_antisym:
  "consistent_comparator cmp \<Longrightarrow> cmp a b \<le> 0 \<Longrightarrow> cmp b a \<le> 0 \<Longrightarrow> cmp a b = 0"
  unfolding consistent_comparator_def by (metis less_le_not_le order_le_less)

lemma sorted_insert_by:
  assumes "consistent_comparator cmp" "sorted_wrt (\<lambda>a b. cmp a b \<le> 0) ys"
  shows "sorted_wrt (\<lambda>a b. cmp a b \<le> 0) (insert_by cmp x ys)"
  using assms(2)
proof (induction ys)
  case Nil
  then show ?case by simp
next
  case (Cons y ys)
  show ?case
  proof (cases "cmp x y \<le> 0")
    case True
    with Cons.prems show ?thesis
      by (auto intro: consistent_trans [OF assms(1)])
  next
    case False
    then have "cmp y x \<le> 0" by (rule consistent_total [OF assms(1)])
    with False Cons show ?thesis
      by (auto simp: set_insert_by)
  qed
qed

lemma sorted_array_sort:
  "consistent_comparator cmp \<Longrightarrow> sorted_wrt (\<lambda>a b. cmp a b \<le> 0) (array_sort cmp xs)"
  by (induction xs) (auto intro: sorted_insert_by)

lemma filter_insert_by:
  assumes "\<And>a b. P a \<Longrightarrow> P b \<Longrightarrow> cmp a b \<le> 0"
  shows "filter P (insert_by cmp x ys) = (if P x then x # filter P ys else filter P ys)"
proof (induction ys)
  case Nil
  then show ?case by simp
next
  case (Cons y ys)
  then show ?case using assms by auto
qed

lemma filter_array_sort:
  assumes "\<And>a b. P a \<Longrightarrow> P b \<Longrightarrow> cmp a b \<le> 0"
  shows "filter P (array_sort cmp xs) = filter P xs"
  by (induction xs) (simp_all add: filter_insert_by [of P cmp, OF assms])

lemma equal_class:
  assumes "consistent_comparator cmp" "cmp k a = 0" "cmp k b = 0"
  shows "cmp a b \<le> 0"
proof -
  have "cmp a k \<le> 0" using consistent_sym [OF assms(1,2)] by simp
  moreover have "cmp k b \<le> 0" using assms(3) by simp
  ultimately show ?thesis by (rule consistent_trans [OF assms(1)])
qed

lemma sort_contract_array_sort:
  assumes "consistent_comparator cmp"
  shows "sort_contract cmp xs (array_sort cmp xs)"
  unfolding sort_contract_def
  using assms
  by (auto simp: mset_array_sort sorted_array_sort intro!: filter_array_sort equal_class [OF assms])

lemma sorted_stable_unique:
  assumes c: "consistent_comparator cmp"
  shows "sorted_wrt (\<lambda>a b. cmp a b \<le> 0) ys \<Longrightarrow> sorted_wrt (\<lambda>a b. cmp a b \<le> 0) zs \<Longrightarrow>
    (\<And>k. k \<in> set ys \<union> set zs \<Longrightarrow> filter (\<lambda>y. cmp k y = 0) ys = filter (\<lambda>y. cmp k y = 0) zs) \<Longrightarrow>
    ys = zs"
proof (induction ys arbitrary: zs)
  case Nil
  show ?case
  proof (cases zs)
    case Nil
    then show ?thesis by simp
  next
    case (Cons z zs')
    with Nil.prems(3) [of z] consistent_refl [OF c, of z] show ?thesis by simp
  qed
next
  case (Cons y ys)
  have yy: "cmp y y = 0" by (rule consistent_refl [OF c])
  from Cons.prems(3) [of y] yy have fy: "filter (\<lambda>v. cmp y v = 0) zs = y # filter (\<lambda>v. cmp y v = 0) ys"
    by simp
  then obtain z zs' where zs: "zs = z # zs'" by (cases zs) auto
  have zz: "cmp z z = 0" by (rule consistent_refl [OF c])
  have "z = y"
  proof (cases "cmp y z = 0")
    case True
    with fy zs show ?thesis by simp
  next
    case False
    from fy have "y \<in> set (filter (\<lambda>v. cmp y v = 0) zs)" by simp
    then have "y \<in> set zs" by simp
    with zs False yy have "y \<in> set zs'" by auto
    with Cons.prems(2) zs have zy: "cmp z y \<le> 0" by simp
    have "z \<in> set (filter (\<lambda>v. cmp z v = 0) zs)" using zs zz by simp
    with Cons.prems(3) [of z] zs have "z \<in> set (filter (\<lambda>v. cmp z v = 0) (y # ys))"
      by simp
    then have "z \<in> set (y # ys)" by (auto split: if_splits)
    moreover have "z \<noteq> y" using False yy by auto
    ultimately have "z \<in> set ys" by simp
    with Cons.prems(1) have "cmp y z \<le> 0" by simp
    with zy have "cmp y z = 0" using consistent_antisym [OF c] by blast
    with False show ?thesis by simp
  qed
  with zs have zs2: "zs = y # zs'" by simp
  have "ys = zs'"
  proof (rule Cons.IH)
    show "sorted_wrt (\<lambda>a b. cmp a b \<le> 0) ys" using Cons.prems(1) by simp
    show "sorted_wrt (\<lambda>a b. cmp a b \<le> 0) zs'" using Cons.prems(2) zs2 by simp
    fix k assume "k \<in> set ys \<union> set zs'"
    then have "k \<in> set (y # ys) \<union> set zs" using zs2 by auto
    from Cons.prems(3) [OF this] zs2
    show "filter (\<lambda>y. cmp k y = 0) ys = filter (\<lambda>y. cmp k y = 0) zs'"
      by (auto split: if_splits)
  qed
  with zs2 show ?case by simp
qed

lemma sort_contract_unique:
  assumes c: "consistent_comparator cmp" and "sort_contract cmp xs ys" "sort_contract cmp xs zs"
  shows "ys = zs"
proof (rule sorted_stable_unique [OF c])
  show "sorted_wrt (\<lambda>a b. cmp a b \<le> 0) ys" "sorted_wrt (\<lambda>a b. cmp a b \<le> 0) zs"
    using assms(2,3) by (simp_all add: sort_contract_def)
  fix k assume "k \<in> set ys \<union> set zs"
  moreover have "set ys = set xs" "set zs = set xs"
    using assms(2,3) by (auto simp: sort_contract_def dest: mset_eq_setD)
  ultimately have "k \<in> set xs" by simp
  with assms(2,3) show "filter (\<lambda>y. cmp k y = 0) ys = filter (\<lambda>y. cmp k y = 0) zs"
    by (simp add: sort_contract_def)
qed


subsection \<open>The comparators of the dashboards\<close>

lemma compare_rows_key:
  "compare_rows h =
     order_key_compare (\<lambda>r. safeNumber h (base_score r))
       (\<lambda>a b. localeCompare h (id_text h a) (id_text h b))"
  by (intro ext) (auto simp: compare_rows_def order_key_compare_def Let_def split: option.splits)

lemma compare_rows2_key:
  "compare_rows2 h =
     order_key_compare (\<lambda>r. safeNumber2 h (base_score r))
       (\<lambda>a b. localeCompare h (id_text h a) (id_text h b))"
  by (intro ext) (auto simp: compare_rows2_def order_key_compare_def Let_def split: option.splits)

lemma consistent_order_key_compare:
  assumes "consistent_comparator fb"
  shows "consistent_comparator (order_key_compare sc fb)"
  unfolding consistent_comparator_def
proof (intro conjI allI impI)
  fix a b
  show "(order_key_compare sc fb a b < 0) = (0 < order_key_compare sc fb b a)"
    using assms by (auto simp: order_key_compare_def consistent_comparator_def split: option.splits)
next
  fix a b c
  assume "order_key_compare sc fb a b \<le> 0" "order_key_compare sc fb b c \<le> 0"
  then show "order_key_compare sc fb a c \<le> 0"
    using consistent_trans [OF assms, of a b c]
    by (auto simp: order_key_compare_def split: option.splits)
qed

lemma consistent_on_text:
  "consistent_comparator cmp \<Longrightarrow> consistent_comparator (\<lambda>a b. cmp (f a) (f b))"
  unfolding consistent_comparator_def by blast

lemma consistent_compare_rows:
  "consistent_comparator (localeCompare h) \<Longrightarrow> consistent_comparator (compare_rows h)"
  unfolding compare_rows_key
  by (rule consistent_order_key_compare) (rule consistent_on_text)

lemma consistent_compare_rows2:
  "consistent_comparator (localeCompare h) \<Longrightarrow> consistent_comparator (compare_rows2 h)"
  unfolding compare_rows2_key
  by (rule consistent_order_key_compare) (rule consistent_on_text)

lemma consistent_code_unit_order: "consistent_comparator code_unit_order"
  unfolding consistent_comparator_def code_unit_order_def by auto


lemma order_key_compare_le:
  "order_key_compare sc fb a b \<le> 0 \<longleftrightarrow>
     (case (sc a, sc b) of
        (Some x, Some y) \<Rightarrow> y \<le> x
      | (Some x, None) \<Rightarrow> True
      | (None, Some y) \<Rightarrow> False
      | (None, None) \<Rightarrow> fb a b \<le> 0)"
  by (simp add: order_key_compare_def split: option.splits)

lemma compare_rows_le: "compare_rows h a b \<le> 0 \<longleftrightarrow> shown_before (safeNumber h) h a b"
  by (simp add: compare_rows_key order_key_compare_le shown_before_def)

lemma compare_rows2_le: "compare_rows2 h a b \<le> 0 \<longleftrightarrow> shown_before (safeNumber2 h) h a b"
  by (simp add: compare_rows2_key order_key_compare_le shown_before_def)

lemma same_score_class:
  "sc a = Some x \<Longrightarrow> sc b = Some x \<Longrightarrow> order_key_compare sc fb a b \<le> 0"
  by (simp add: order_key_compare_def)

subsection \<open>Where the two \<open>safeNumber\<close> agree\<close>

lemma lower_n:
  assumes "toLowerChar a = CHR ''n''"
  shows "a = CHR ''n'' \<or> a = CHR ''N''"
proof -
  have a: "of_char (toLowerChar a) = (110::nat)" using assms by simp
  have "of_char a < (256::nat)" by simp
  with a have "of_char a = (110::nat) \<or> of_char a = (78::nat)"
    by (auto simp: toLowerChar_def Let_def split: if_splits)
  then have "of_char a = (of_char CHR ''n'' :: nat) \<or> of_char a = (of_char CHR ''N'' :: nat)"
    by simp
  then show ?thesis by (simp only: of_char_eq_iff)
qed

lemma not_available_is_NaN:
  assumes "toLowerCase (trim s) = ''n/a''"
  shows "StringToNumber h s = NaN"
proof -
  from assms obtain a r where t: "trim s = a # r" and a: "toLowerChar a = CHR ''n''"
    by (auto simp: toLowerCase_def)
  from lower_n [OF a] have n: "a = CHR ''n'' \<or> a = CHR ''N''" .
  then have "nonDecimalBase (a # r) = None"
    by (auto simp: nonDecimalBase_def split: list.splits)
  moreover from n have "unsignedDecimal (a # r) = None"
    by (auto simp: unsignedDecimal_def isDigit_def)
  moreover from n have "a # r \<noteq> ''Infinity''" "a \<noteq> CHR ''+''" "a \<noteq> CHR ''-''"
    by auto
  ultimately show ?thesis
    by (simp add: StringToNumber_def t strUnsignedDecimalLiteral_def)
qed

lemma safeNumber2_eq:
  assumes "x \<noteq> JNull"
  shows "safeNumber2 h x = safeNumber h x"
proof (cases x)
  case (JStr s)
  then show ?thesis
    by (simp add: safeNumber2_def safeNumber_def is_nullish_def not_available_is_NaN)
qed (use assms in \<open>simp_all add: safeNumber2_def safeNumber_def is_nullish_def\<close>)

lemma compare_rows2_eq:
  "base_score a \<noteq> JNull \<Longrightarrow> base_score b \<noteq> JNull \<Longrightarrow> compare_rows2 h a b = compare_rows h a b"
  by (simp add: compare_rows2_def compare_rows_def safeNumber2_eq)

subsection \<open>Evaluation\<close>

lemma char_eq_char_of: "c = char_of (n::nat) \<longleftrightarrow> take_bit 8 n = of_char c"
  using char_of_eq_iff [of n c] by auto

lemma floor_rat_numeral_div: "\<lfloor>numeral a / numeral b :: rat\<rfloor> = numeral a div numeral b"
  by (metis floor_divide_of_int_eq of_int_numeral)

lemma floor_rat_one_div: "\<lfloor>1 / numeral b :: rat\<rfloor> = 1 div numeral b"
  by (metis floor_divide_of_int_eq of_int_numeral of_int_1)

lemmas eval_text =
  toLowerCase_def toLowerChar_def char_of_eq_iff char_eq_char_of Let_def trim_def isWhiteSpace_def
  is_nullish_def nullish_or_def sample_host_def print_number_def floor_rat_numeral_div
  floor_rat_one_div

lemmas eval_rows =
  eval_text filtered_def matching_def filtered2_def matching2_def severity_is_def debsecan_is_def
  compare_rows_key compare_rows2_key order_key_compare_def safeNumber_def safeNumber2_def
  row_def id_text_def code_unit_order_def cveToSearchableText_def vulnToSearchableText_def
  toText_def packagesToText_def StringToNumber_def nonDecimalBase_def
  strUnsignedDecimalLiteral_def unsignedDecimal_def isDigit_def

subsection \<open>The example of the specification\<close>

lemma sample_rows:
  "filtered h [row ''A'' (JNum (Fin (39 / 5))), row ''B'' (JNum (Fin (91 / 10))), row ''C'' JNull] [] ''ALL''
     = [row ''B'' (JNum (Fin (91 / 10))), row ''A'' (JNum (Fin (39 / 5))), row ''C'' JNull]"
  by (simp add: filtered_def matching_def toLowerCase_def trim_def severity_is_def
      compare_rows_key order_key_compare_def safeNumber_def row_def)

lemma sample_rows2:
  "filtered2 h [row ''A'' (JNum (Fin (39 / 5))), row ''B'' (JNum (Fin (91 / 10))), row ''C'' JNull] [] ''ALL'' ''ALL''
     = [row ''B'' (JNum (Fin (91 / 10))), row ''A'' (JNum (Fin (39 / 5))), row ''C'' JNull]"
  by (simp add: filtered2_def matching2_def toLowerCase_def trim_def severity_is_def debsecan_is_def
      compare_rows2_key order_key_compare_def safeNumber2_def is_nullish_def row_def)

subsection \<open>The presentation order\<close>

text \<open>
  The table of either dashboard, in terms of its own \<open>safeNumber\<close>: it holds the matching
  rows, in an order the comparator accepts, rows of one numeric score in their order of input.
\<close>

lemma table_order:
  assumes "consistent_comparator (localeCompare h)"
  shows
    "mset (filtered h rows query sel) = mset (matching h rows query sel) \<and>
     sorted_wrt (shown_before (safeNumber h) h) (filtered h rows query sel) \<and>
     (\<forall>x. filter (\<lambda>r. safeNumber h (base_score r) = Some x) (filtered h rows query sel) =
          filter (\<lambda>r. safeNumber h (base_score r) = Some x) (matching h rows query sel))"
proof -
  have s1: "sorted_wrt (shown_before (safeNumber h) h) (filtered h rows query sel)"
    using sorted_array_sort [OF consistent_compare_rows [OF assms], of "matching h rows query sel"]
    by (simp add: filtered_def compare_rows_le)
  have t1: "filter (\<lambda>r. safeNumber h (base_score r) = Some x) (filtered h rows query sel) =
          filter (\<lambda>r. safeNumber h (base_score r) = Some x) (matching h rows query sel)" for x
    unfolding filtered_def compare_rows_key
    by (rule filter_array_sort) (rule same_score_class)
  show ?thesis
    using s1 t1 by (simp add: filtered_def mset_array_sort)
qed

lemma table_order2:
  assumes "consistent_comparator (localeCompare h)"
  shows
    "mset (filtered2 h rows query sel deb) = mset (matching2 h rows query sel deb) \<and>
     sorted_wrt (shown_before (safeNumber2 h) h) (filtered2 h rows query sel deb) \<and>
     (\<forall>x. filter (\<lambda>r. safeNumber2 h (base_score r) = Some x) (filtered2 h rows query sel deb) =
          filter (\<lambda>r. safeNumber2 h (base_score r) = Some x) (matching2 h rows query sel deb))"
proof -
  have s2: "sorted_wrt (shown_before (safeNumber2 h) h) (filtered2 h rows query sel deb)"
    using sorted_array_sort [OF consistent_compare_rows2 [OF assms], of "matching2 h rows query sel deb"]
    by (simp add: filtered2_def compare_rows2_le)
  have t2: "filter (\<lambda>r. safeNumber2 h (base_score r) = Some x) (filtered2 h rows query sel deb) =
          filter (\<lambda>r. safeNumber2 h (base_score r) = Some x) (matching2 h rows query sel deb)" for x
    unfolding filtered2_def compare_rows2_key
    by (rule filter_array_sort) (rule same_score_class)
  show ?thesis
    using s2 t2 by (simp add: filtered2_def mset_array_sort)
qed

lemma set_matching: "set (matching h rows query sel) \<subseteq> set rows"
  by (auto simp: matching_def Let_def)

lemma set_filtered: "set (filtered h rows query sel) \<subseteq> set rows"
  using set_matching [of h rows query sel] by (simp add: filtered_def set_array_sort)

text \<open>
  Claim C1, as the code has it. A numeric score is a \<open>base_score\<close> that is neither \<open>null\<close> nor
  the text \<open>n/a\<close> and converts to a finite number (\<open>safeNumber2\<close>). For every list of rows,
  every query and every selection, provided the host's collation is a consistent comparator,
  in the dashboard of \<open>/results2.json\<close>, and in the dashboard of \<open>/results.json\<close> when no row has
  the score \<open>null\<close>: the table holds the matching rows; of two rows with a numeric score the
  earlier one has the greater or the same score; no row without a numeric score stands
  before a row with one; of two rows without a numeric score the earlier one has the
  identifier the collation puts first or equal; and rows of one and the same numeric score
  stand in their order of input, whatever their identifiers. Rows with scores 7.8, 9.1,
  \<open>null\<close> and identifiers A, B, C are shown as B, A, C by both dashboards.
\<close>

theorem presentation_order:
  assumes "consistent_comparator (localeCompare h)"
  shows
    "mset (filtered2 h rows query sel deb) = mset (matching2 h rows query sel deb) \<and>
     sorted_wrt (shown_before (safeNumber2 h) h) (filtered2 h rows query sel deb) \<and>
     (\<forall>x. filter (\<lambda>r. safeNumber2 h (base_score r) = Some x) (filtered2 h rows query sel deb) =
          filter (\<lambda>r. safeNumber2 h (base_score r) = Some x) (matching2 h rows query sel deb)) \<and>
     ((\<forall>r \<in> set rows. base_score r \<noteq> JNull) \<longrightarrow>
        mset (filtered h rows query sel) = mset (matching h rows query sel) \<and>
        sorted_wrt (shown_before (safeNumber2 h) h) (filtered h rows query sel) \<and>
        (\<forall>x. filter (\<lambda>r. safeNumber2 h (base_score r) = Some x) (filtered h rows query sel) =
             filter (\<lambda>r. safeNumber2 h (base_score r) = Some x) (matching h rows query sel))) \<and>
     filtered h [row ''A'' (JNum (Fin (39 / 5))), row ''B'' (JNum (Fin (91 / 10))), row ''C'' JNull]
         [] ''ALL''
       = [row ''B'' (JNum (Fin (91 / 10))), row ''A'' (JNum (Fin (39 / 5))), row ''C'' JNull] \<and>
     filtered2 h [row ''A'' (JNum (Fin (39 / 5))), row ''B'' (JNum (Fin (91 / 10))), row ''C'' JNull]
         [] ''ALL'' ''ALL''
       = [row ''B'' (JNum (Fin (91 / 10))), row ''A'' (JNum (Fin (39 / 5))), row ''C'' JNull]"
proof -
  have one: "mset (filtered h rows query sel) = mset (matching h rows query sel) \<and>
        sorted_wrt (shown_before (safeNumber2 h) h) (filtered h rows query sel) \<and>
        (\<forall>x. filter (\<lambda>r. safeNumber2 h (base_score r) = Some x) (filtered h rows query sel) =
             filter (\<lambda>r. safeNumber2 h (base_score r) = Some x) (matching h rows query sel))"
    if nn: "\<forall>r \<in> set rows. base_score r \<noteq> JNull"
  proof -
    have f: "safeNumber2 h (base_score r) = safeNumber h (base_score r)"
      if "r \<in> set (filtered h rows query sel)" for r
      using that nn set_filtered [of h rows query sel] by (auto intro: safeNumber2_eq)
    have m: "safeNumber2 h (base_score r) = safeNumber h (base_score r)"
      if "r \<in> set (matching h rows query sel)" for r
      using that nn set_matching [of h rows query sel] by (auto intro: safeNumber2_eq)
    have "sorted_wrt (shown_before (safeNumber h) h) (filtered h rows query sel)"
      using table_order [OF assms] by blast
    then have s: "sorted_wrt (shown_before (safeNumber2 h) h) (filtered h rows query sel)"
      by (rule sorted_wrt_mono_rel [rotated]) (simp add: shown_before_def f)
    have t: "filter (\<lambda>r. safeNumber2 h (base_score r) = Some x) (filtered h rows query sel) =
             filter (\<lambda>r. safeNumber2 h (base_score r) = Some x) (matching h rows query sel)" for x
    proof -
      have "filter (\<lambda>r. safeNumber2 h (base_score r) = Some x) (filtered h rows query sel) =
            filter (\<lambda>r. safeNumber h (base_score r) = Some x) (filtered h rows query sel)"
        by (rule filter_cong) (simp_all add: f)
      also have "\<dots> = filter (\<lambda>r. safeNumber h (base_score r) = Some x) (matching h rows query sel)"
        using table_order [OF assms] by blast
      also have "\<dots> = filter (\<lambda>r. safeNumber2 h (base_score r) = Some x) (matching h rows query sel)"
        by (rule filter_cong) (simp_all add: m)
      finally show ?thesis .
    qed
    from s t table_order [OF assms, of rows query sel] show ?thesis by blast
  qed
  from one table_order2 [OF assms, of rows query sel deb] sample_rows [of h] sample_rows2 [of h]
  show ?thesis by blast
qed

text \<open>
  Claim C1 at the sample host: six rows searched for \<open>cve\<close>. The two rows of score 5 keep
  their order of input, CVE-3 before CVE-4.
\<close>

theorem presentation_order_witness:
  "consistent_comparator (localeCompare sample_host) \<and>
   filtered sample_host
      [row ''CVE-3'' (JNum (Fin 5)), row ''CVE-2'' JUndefined, row ''XYZ'' (JNum (Fin 10)),
       row ''CVE-1'' (JStr ''n/a''), row ''CVE-4'' (JNum (Fin 5)), row ''CVE-5'' (JNum (Fin (19 / 2)))]
      ''cve'' ''ALL''
     = [row ''CVE-5'' (JNum (Fin (19 / 2))), row ''CVE-3'' (JNum (Fin 5)), row ''CVE-4'' (JNum (Fin 5)),
        row ''CVE-1'' (JStr ''n/a''), row ''CVE-2'' JUndefined] \<and>
   sorted_wrt (shown_before (safeNumber2 sample_host) sample_host)
     (filtered sample_host
        [row ''CVE-3'' (JNum (Fin 5)), row ''CVE-2'' JUndefined, row ''XYZ'' (JNum (Fin 10)),
         row ''CVE-1'' (JStr ''n/a''), row ''CVE-4'' (JNum (Fin 5)), row ''CVE-5'' (JNum (Fin (19 / 2)))]
        ''cve'' ''ALL'')"
proof -
  have c: "consistent_comparator (localeCompare sample_host)"
    by (simp add: sample_host_def consistent_code_unit_order)
  have e: "filtered sample_host
      [row ''CVE-3'' (JNum (Fin 5)), row ''CVE-2'' JUndefined, row ''XYZ'' (JNum (Fin 10)),
       row ''CVE-1'' (JStr ''n/a''), row ''CVE-4'' (JNum (Fin 5)), row ''CVE-5'' (JNum (Fin (19 / 2)))]
      ''cve'' ''ALL''
     = [row ''CVE-5'' (JNum (Fin (19 / 2))), row ''CVE-3'' (JNum (Fin 5)), row ''CVE-4'' (JNum (Fin 5)),
        row ''CVE-1'' (JStr ''n/a''), row ''CVE-2'' JUndefined]"
    by (simp add: eval_rows)
  have n: "\<forall>r \<in> set [row ''CVE-3'' (JNum (Fin 5)), row ''CVE-2'' JUndefined, row ''XYZ'' (JNum (Fin 10)),
       row ''CVE-1'' (JStr ''n/a''), row ''CVE-4'' (JNum (Fin 5)), row ''CVE-5'' (JNum (Fin (19 / 2)))].
      base_score r \<noteq> JNull"
    by (simp add: row_def)
  from presentation_order [OF c] c e n show ?thesis by blast
qed

text \<open>
  Claim C1 as the specification words it fails: two rows of score 5 with identifiers B and A,
  in this order, are shown as B, A in both dashboards.
\<close>

theorem equal_scores_counterexample:
  "filtered sample_host [row ''B'' (JNum (Fin 5)), row ''A'' (JNum (Fin 5))] [] ''ALL''
     = [row ''B'' (JNum (Fin 5)), row ''A'' (JNum (Fin 5))] \<and>
   \<not> sorted_wrt (specified_before (safeNumber sample_host) sample_host)
       (filtered sample_host [row ''B'' (JNum (Fin 5)), row ''A'' (JNum (Fin 5))] [] ''ALL'') \<and>
   filtered2 sample_host [row ''B'' (JNum (Fin 5)), row ''A'' (JNum (Fin 5))] [] ''ALL'' ''ALL''
     = [row ''B'' (JNum (Fin 5)), row ''A'' (JNum (Fin 5))] \<and>
   \<not> sorted_wrt (specified_before (safeNumber2 sample_host) sample_host)
       (filtered2 sample_host [row ''B'' (JNum (Fin 5)), row ''A'' (JNum (Fin 5))] [] ''ALL'' ''ALL'')"
  by (simp add: eval_rows specified_before_def)

subsection \<open>One table for one input\<close>

text \<open>
  Claim C7, as the code has it. On one host, whose collation is a consistent comparator:
  given the rows, the query and the selections, exactly one list meets what ECMAScript
  requires of the sorted array, and it is the table the dashboard shows. Two runs on one host
  with identical rows and identical filter settings show identical tables, in either
  dashboard.
\<close>

theorem filtered_determined:
  assumes "consistent_comparator (localeCompare h)"
  shows
    "(sort_contract (compare_rows h) (matching h rows query sel) ys \<longleftrightarrow>
        ys = filtered h rows query sel) \<and>
     (sort_contract (compare_rows2 h) (matching2 h rows query sel deb) zs \<longleftrightarrow>
        zs = filtered2 h rows query sel deb)"
proof -
  have c1: "consistent_comparator (compare_rows h)"
    by (rule consistent_compare_rows [OF assms])
  have c2: "consistent_comparator (compare_rows2 h)"
    by (rule consistent_compare_rows2 [OF assms])
  show ?thesis
    unfolding filtered_def filtered2_def
    using sort_contract_array_sort [OF c1] sort_contract_unique [OF c1]
      sort_contract_array_sort [OF c2] sort_contract_unique [OF c2]
    by blast
qed

text \<open>Claim C7 at the sample host, for four rows searched for \<open>cve-\<close>.\<close>

theorem filtered_determined_witness:
  "consistent_comparator (localeCompare sample_host) \<and>
   sort_contract (compare_rows sample_host)
     (matching sample_host
        [row ''CVE-2'' JNull, row ''CVE-9'' (JNum (Fin 4)), row ''CVE-1'' (JStr ''n/a''),
         row ''CVE-7'' (JNum (Fin 4))] ''cve-'' ''ALL'')
     [row ''CVE-9'' (JNum (Fin 4)), row ''CVE-7'' (JNum (Fin 4)), row ''CVE-2'' JNull,
      row ''CVE-1'' (JStr ''n/a'')] \<and>
   sort_contract (compare_rows2 sample_host)
     (matching2 sample_host
        [row ''CVE-2'' JNull, row ''CVE-9'' (JNum (Fin 4)), row ''CVE-1'' (JStr ''n/a''),
         row ''CVE-7'' (JNum (Fin 4))] ''cve-'' ''ALL'' ''ALL'')
     [row ''CVE-9'' (JNum (Fin 4)), row ''CVE-7'' (JNum (Fin 4)), row ''CVE-1'' (JStr ''n/a''),
      row ''CVE-2'' JNull]"
proof -
  have c: "consistent_comparator (localeCompare sample_host)"
    by (simp add: sample_host_def consistent_code_unit_order)
  have e1: "filtered sample_host
        [row ''CVE-2'' JNull, row ''CVE-9'' (JNum (Fin 4)), row ''CVE-1'' (JStr ''n/a''),
         row ''CVE-7'' (JNum (Fin 4))] ''cve-'' ''ALL''
      = [row ''CVE-9'' (JNum (Fin 4)), row ''CVE-7'' (JNum (Fin 4)), row ''CVE-2'' JNull,
         row ''CVE-1'' (JStr ''n/a'')]"
    by (simp add: eval_rows)
  have e2: "filtered2 sample_host
        [row ''CVE-2'' JNull, row ''CVE-9'' (JNum (Fin 4)), row ''CVE-1'' (JStr ''n/a''),
         row ''CVE-7'' (JNum (Fin 4))] ''cve-'' ''ALL'' ''ALL''
      = [row ''CVE-9'' (JNum (Fin 4)), row ''CVE-7'' (JNum (Fin 4)), row ''CVE-1'' (JStr ''n/a''),
         row ''CVE-2'' JNull]"
    by (simp add: eval_rows)
  from filtered_determined [OF c] c e1 e2 show ?thesis by metis
qed

lemma consistent_dictionary_order: "consistent_comparator dictionary_order"
  unfolding dictionary_order_def by (rule consistent_on_text) (rule consistent_code_unit_order)

lemmas eval_hosts = dictionary_host_def dictionary_order_def fold_diaeresis_def

text \<open>
  Claim C7 as worded, for any two runs, fails: the comparators call \<open>localeCompare\<close> with
  the host's default locale, and two hosts with consistent collations show two unscored rows
  with the identifiers z and a with diaeresis in opposite orders, in either dashboard.
\<close>

theorem locale_counterexample:
  "consistent_comparator (localeCompare sample_host) \<and>
   consistent_comparator (localeCompare dictionary_host) \<and>
   filtered2 sample_host [row ''z'' JNull, row [CHR 0xE4] JNull] [] ''ALL'' ''ALL''
     = [row ''z'' JNull, row [CHR 0xE4] JNull] \<and>
   filtered2 dictionary_host [row ''z'' JNull, row [CHR 0xE4] JNull] [] ''ALL'' ''ALL''
     = [row [CHR 0xE4] JNull, row ''z'' JNull] \<and>
   filtered sample_host [row ''z'' JUndefined, row [CHR 0xE4] JUndefined] [] ''ALL''
     = [row ''z'' JUndefined, row [CHR 0xE4] JUndefined] \<and>
   filtered dictionary_host [row ''z'' JUndefined, row [CHR 0xE4] JUndefined] [] ''ALL''
     = [row [CHR 0xE4] JUndefined, row ''z'' JUndefined]"
proof -
  have a: "consistent_comparator (localeCompare sample_host)"
    by (simp add: sample_host_def consistent_code_unit_order)
  have b: "consistent_comparator (localeCompare dictionary_host)"
    by (simp add: dictionary_host_def consistent_dictionary_order)
  have c: "filtered2 sample_host [row ''z'' JNull, row [CHR 0xE4] JNull] [] ''ALL'' ''ALL''
     = [row ''z'' JNull, row [CHR 0xE4] JNull]"
    by (simp add: eval_rows)
  have d: "filtered2 dictionary_host [row ''z'' JNull, row [CHR 0xE4] JNull] [] ''ALL'' ''ALL''
     = [row [CHR 0xE4] JNull, row ''z'' JNull]"
    by (simp add: eval_rows eval_hosts)
  have e: "filtered sample_host [row ''z'' JUndefined, row [CHR 0xE4] JUndefined] [] ''ALL''
     = [row ''z'' JUndefined, row [CHR 0xE4] JUndefined]"
    by (simp add: eval_rows)
  have f: "filtered dictionary_host [row ''z'' JUndefined, row [CHR 0xE4] JUndefined] [] ''ALL''
     = [row [CHR 0xE4] JUndefined, row ''z'' JUndefined]"
    by (simp add: eval_rows eval_hosts)
  from a b c d e f show ?thesis by simp
qed

subsection \<open>A score of \<open>null\<close>\<close>

text \<open>
  Claim C8 at a row whose score is \<open>null\<close>, next to a row of score 0: the comparator of
  \<open>/results.json\<close> calls them equal and keeps the order of input, the comparator of
  \<open>/results2.json\<close> puts the scored row first.
\<close>

theorem null_score_divergence:
  "safeNumber sample_host JNull = Some 0 \<and> safeNumber2 sample_host JNull = None \<and>
   compare_rows sample_host (row ''A'' JNull) (row ''B'' (JNum (Fin 0))) = 0 \<and>
   compare_rows2 sample_host (row ''A'' JNull) (row ''B'' (JNum (Fin 0))) = 1 \<and>
   filtered sample_host [row ''A'' JNull, row ''B'' (JNum (Fin 0))] [] ''ALL''
     = [row ''A'' JNull, row ''B'' (JNum (Fin 0))] \<and>
   filtered2 sample_host [row ''A'' JNull, row ''B'' (JNum (Fin 0))] [] ''ALL'' ''ALL''
     = [row ''B'' (JNum (Fin 0)), row ''A'' JNull]"
  by (simp add: eval_rows)

text \<open>
  Claim C10. In the dashboard of \<open>/results.json\<close>, \<open>safeNumber\<close> of \<open>null\<close> is 0, and a row whose
  score is \<open>null\<close> compares with every row exactly as the same row with score 0 does: by the
  difference of the scores against a scored row, before every unscored row. The identifiers
  are compared only when neither score converts to a finite number.
\<close>

theorem null_score_sorts_as_zero:
  "safeNumber h JNull = Some 0 \<and>
   (base_score a = JNull \<longrightarrow>
      compare_rows h a b = compare_rows h (a\<lparr>base_score := JNum (Fin 0)\<rparr>) b \<and>
      compare_rows h b a = compare_rows h b (a\<lparr>base_score := JNum (Fin 0)\<rparr>) \<and>
      (\<forall>y. safeNumber h (base_score b) = Some y \<longrightarrow>
           compare_rows h a b = y \<and> compare_rows h b a = - y) \<and>
      (safeNumber h (base_score b) = None \<longrightarrow>
           compare_rows h a b = - 1 \<and> compare_rows h b a = 1)) \<and>
   (safeNumber h (base_score a) = None \<and> safeNumber h (base_score b) = None \<longrightarrow>
      compare_rows h a b = localeCompare h (id_text h a) (id_text h b))"
  by (auto simp: compare_rows_key order_key_compare_def safeNumber_def split: option.splits)

text \<open>
  Claim C10 at the sample host: two rows of score \<open>null\<close> with identifiers Z and A compare
  equal; a row of score \<open>null\<close> comes before a row of score \<open>n/a\<close>; an absent score and \<open>n/a\<close>
  fall back to the identifiers.
\<close>

theorem null_score_sorts_as_zero_witness:
  "base_score (row ''Z'' JNull) = JNull \<and>
   safeNumber sample_host (base_score (row ''A'' JNull)) = Some 0 \<and>
   compare_rows sample_host (row ''Z'' JNull) (row ''A'' JNull) = 0 \<and>
   safeNumber sample_host (base_score (row ''A'' (JStr ''n/a''))) = None \<and>
   compare_rows sample_host (row ''Z'' JNull) (row ''A'' (JStr ''n/a'')) = - 1 \<and>
   safeNumber sample_host (base_score (row ''Z'' JUndefined)) = None \<and>
   compare_rows sample_host (row ''Z'' JUndefined) (row ''A'' (JStr ''n/a'')) = 1"
proof -
  have b: "base_score (row ''Z'' JNull) = JNull" by (simp add: row_def)
  have s: "safeNumber sample_host (base_score (row ''A'' JNull)) = Some 0"
    by (simp add: row_def safeNumber_def)
  have n: "safeNumber sample_host (base_score (row ''A'' (JStr ''n/a''))) = None"
    by (simp add: row_def safeNumber_def not_available_is_NaN toLowerCase_def toLowerChar_def trim_def isWhiteSpace_def)
  have u: "safeNumber sample_host (base_score (row ''Z'' JUndefined)) = None"
    by (simp add: row_def safeNumber_def)
  have l: "localeCompare sample_host (id_text sample_host (row ''Z'' JUndefined))
      (id_text sample_host (row ''A'' (JStr ''n/a''))) = 1"
    by (simp add: sample_host_def code_unit_order_def id_text_def row_def nullish_or_def is_nullish_def)
  from null_score_sorts_as_zero [of sample_host "row ''Z'' JNull" "row ''A'' JNull"]
    null_score_sorts_as_zero [of sample_host "row ''Z'' JNull" "row ''A'' (JStr ''n/a'')"]
    null_score_sorts_as_zero [of sample_host "row ''Z'' JUndefined" "row ''A'' (JStr ''n/a'')"]
    b s n u l
  show ?thesis by simp
qed

subsection \<open>The users dashboard\<close>

lemma startsWith_iff: "startsWith s q \<longleftrightarrow> (\<exists>suf. s = q @ suf)"
  by (induction s q rule: startsWith.induct) auto

lemma includes_js_iff: "includes_js s q \<longleftrightarrow> (\<exists>pre suf. s = pre @ q @ suf)"
proof (induction s)
  case Nil
  then show ?case by auto
next
  case (Cons d s)
  show ?case
  proof
    assume "includes_js (d # s) q"
    then consider "startsWith (d # s) q" | "includes_js s q" by auto
    then show "\<exists>pre suf. d # s = pre @ q @ suf"
    proof cases
      case 1
      then obtain suf where "d # s = q @ suf" by (auto simp: startsWith_iff)
      then have "d # s = [] @ q @ suf" by simp
      then show ?thesis by blast
    next
      case 2
      with Cons.IH obtain pre suf where "s = pre @ q @ suf" by auto
      then have "d # s = (d # pre) @ q @ suf" by simp
      then show ?thesis by blast
    qed
  next
    assume "\<exists>pre suf. d # s = pre @ q @ suf"
    then obtain pre suf where e: "d # s = pre @ q @ suf" by auto
    show "includes_js (d # s) q"
    proof (cases pre)
      case Nil
      with e have "startsWith (d # s) q" by (auto simp: startsWith_iff)
      then show ?thesis by simp
    next
      case (Cons p pre')
      with e have "s = pre' @ q @ suf" by simp
      with Cons.IH have "includes_js s q" by blast
      then show ?thesis by simp
    qed
  qed
qed

lemma toLowerCase_append: "toLowerCase (a @ b) = toLowerCase a @ toLowerCase b"
  by (simp add: toLowerCase_def)

lemma join_contains:
  "s \<in> set xs \<Longrightarrow> \<exists>pre suf. join sep xs = pre @ s @ suf"
proof (induction sep xs rule: join.induct)
  case (1 sep)
  then show ?case by simp
next
  case (2 sep x)
  then have "join sep [x] = [] @ s @ []" by simp
  then show ?case by blast
next
  case (3 sep x y ys)
  show ?case
  proof (cases "s = x")
    case True
    then have "join sep (x # y # ys) = [] @ s @ (sep @ join sep (y # ys))" by simp
    then show ?thesis by blast
  next
    case False
    with "3.prems" have "s \<in> set (y # ys)" by simp
    with "3.IH" obtain pre suf where "join sep (y # ys) = pre @ s @ suf" by blast
    then have "join sep (x # y # ys) = (x @ sep @ pre) @ s @ suf" by simp
    then show ?thesis by blast
  qed
qed

lemma part_text_nullish: "ToString h (nullish_or v (JStr [])) = part_text h v"
  by (cases v) (simp_all add: nullish_or_def is_nullish_def part_text_def)

lemma truthy_text: "truthy v \<Longrightarrow> (if is_nullish v then [] else ToString h v) = ToString h v"
  by (cases v) (simp_all add: is_nullish_def)

lemma array_join_truthy:
  "array_join h sep (filter truthy vs) = join sep (map (ToString h) (filter truthy vs))"
proof -
  have "map (\<lambda>v. if is_nullish v then [] else ToString h v) (filter truthy vs)
      = map (ToString h) (filter truthy vs)"
    by (rule map_cong) (simp_all add: truthy_text)
  then show ?thesis unfolding array_join_def by (rule arg_cong)
qed

lemma searchable_text_fields:
  "userToSearchableText h u = toLowerCase (join '' '' (searched_texts h u))"
proof -
  have c: "(case user_company u of
               Some c \<Rightarrow>
                 ToString h (nullish_or (company_name c) (JStr [])) @ '' '' @
                 ToString h (nullish_or (catchPhrase c) (JStr []))
             | None \<Rightarrow> []) = company_text h u"
    by (simp add: company_text_def part_text_nullish split: option.splits)
  have a: "(case user_address u of
               Some a \<Rightarrow>
                 ToString h (nullish_or (street a) (JStr [])) @ '' '' @
                 ToString h (nullish_or (suite a) (JStr [])) @ '' '' @
                 ToString h (nullish_or (city a) (JStr [])) @ '' '' @
                 ToString h (nullish_or (zipcode a) (JStr []))
             | None \<Rightarrow> []) = address_text h u"
    by (simp add: address_text_def part_text_nullish split: option.splits)
  have l: "[user_id u, user_name u, username u, email u, phone u, website u,
            JStr (company_text h u), JStr (address_text h u)]
      = [user_id u, user_name u, username u, email u, phone u, website u] @
        [JStr (company_text h u), JStr (address_text h u)]" by simp
  have m: "map (ToString h) (filter truthy [JStr (company_text h u), JStr (address_text h u)])
      = filter (\<lambda>s. s \<noteq> []) [company_text h u, address_text h u]" by simp
  show ?thesis
    unfolding userToSearchableText_def Let_def c a array_join_truthy searched_texts_def
    by (simp only: l filter_append map_append m)
qed

lemma searched_text_found:
  assumes "s \<in> set (searched_texts h u)"
  shows "\<exists>pre suf. userToSearchableText h u = pre @ toLowerCase s @ suf"
proof -
  from join_contains [OF assms, of "'' ''"] obtain pre suf
    where "join '' '' (searched_texts h u) = pre @ s @ suf" by blast
  then have "userToSearchableText h u = toLowerCase pre @ toLowerCase s @ toLowerCase suf"
    by (simp add: searchable_text_fields toLowerCase_append)
  then show ?thesis by blast
qed

text \<open>
  Claim C9, as the code has it. The users dashboard shows, in their order of input, exactly
  the users whose searchable text contains the trimmed, lower-cased query as a substring, and
  every user when the trimmed query is empty. The searchable text is the lower-cased texts,
  joined by single spaces, of those of id, name, username, email, phone and website that are
  truthy, then of the company (name and catch phrase) and of the address (street, suite,
  city and zip code) where the user has one, an absent or \<open>null\<close> part counting as empty.
  Each of these texts, lower-cased, is found in the searchable text. A field that is not
  truthy, an id of 0 among them, is not searched.
\<close>

theorem filteredUsers_substring:
  "filteredUsers h users query =
     (if toLowerCase (trim query) = [] then users
      else filter (\<lambda>u. \<exists>pre suf. toLowerCase (join '' '' (searched_texts h u))
                                  = pre @ toLowerCase (trim query) @ suf)
             users) \<and>
   userToSearchableText h u = toLowerCase (join '' '' (searched_texts h u)) \<and>
   (\<forall>s \<in> set (searched_texts h u).
      \<exists>pre suf. userToSearchableText h u = pre @ toLowerCase s @ suf)"
  using searched_text_found [of _ h u]
  by (simp add: filteredUsers_def Let_def includes_js_iff searchable_text_fields)

lemmas eval_users =
  eval_text filteredUsers_def userToSearchableText_def array_join_def leanne_def ervin_def

lemmas eval_users2 =
  eval_users searched_texts_def company_text_def address_text_def part_text_def
  concatenated_text_def zero_def

text \<open>
  Claim C9 at the sample host, for three users: a username is found, a query across the
  company and the address is found, an absent suite is not searched as \<open>undefined\<close>.
\<close>

theorem filteredUsers_substring_witness:
  "searched_texts sample_host ervin
     = [''2'', ''Ervin Howell'', ''Antonette'', ''Shanna@melissa.tv'',
        ''Victor Plains  Wisokyburgh 90566-7771''] \<and>
   userToSearchableText sample_host ervin
     = ''2 ervin howell antonette shanna@melissa.tv victor plains  wisokyburgh 90566-7771'' \<and>
   filteredUsers sample_host [leanne, ervin, zero] ''  BRET '' = [leanne] \<and>
   filteredUsers sample_host [leanne, ervin, zero] ''neural-net kulas'' = [leanne] \<and>
   filteredUsers sample_host [leanne, ervin, zero] ''   '' = [leanne, ervin, zero] \<and>
   filteredUsers sample_host [leanne, ervin, zero] ''undefined'' = [] \<and>
   filteredUsers sample_host [leanne, ervin, zero] ''antonette'' = [ervin] \<and>
   includes_js (userToSearchableText sample_host ervin) (toLowerCase ''Antonette'')"
proof -
  have s: "searched_texts sample_host ervin
     = [''2'', ''Ervin Howell'', ''Antonette'', ''Shanna@melissa.tv'',
        ''Victor Plains  Wisokyburgh 90566-7771'']"
    by (simp add: eval_users2)
  note t = filteredUsers_substring [of sample_host "[leanne, ervin, zero]" "[]" ervin]
  from t s have x: "userToSearchableText sample_host ervin
     = ''2 ervin howell antonette shanna@melissa.tv victor plains  wisokyburgh 90566-7771''"
    by (simp add: eval_text)
  from t have "\<forall>s \<in> set (searched_texts sample_host ervin).
      \<exists>pre suf. userToSearchableText sample_host ervin = pre @ toLowerCase s @ suf" by blast
  with s have "\<exists>pre suf. userToSearchableText sample_host ervin
      = pre @ toLowerCase ''Antonette'' @ suf" by simp
  then have i: "includes_js (userToSearchableText sample_host ervin) (toLowerCase ''Antonette'')"
    by (simp add: includes_js_iff)
  have a: "filteredUsers sample_host [leanne, ervin, zero] ''  BRET '' = [leanne]"
    "filteredUsers sample_host [leanne, ervin, zero] ''neural-net kulas'' = [leanne]"
    "filteredUsers sample_host [leanne, ervin, zero] ''   '' = [leanne, ervin, zero]"
    "filteredUsers sample_host [leanne, ervin, zero] ''undefined'' = []"
    "filteredUsers sample_host [leanne, ervin, zero] ''antonette'' = [ervin]"
    by (simp_all add: eval_users2)
  from s x i a show ?thesis by simp
qed

text \<open>
  Claim C9 as worded fails: the concatenation of the fields of a user whose id is 0 contains
  0, and the query 0 does not return the user, whose id is dropped before the texts are
  joined.
\<close>

theorem falsy_field_counterexample:
  "toLowerCase (trim ''0'') = ''0'' \<and>
   concatenated_text sample_host zero = ''0 bob bob7 bob@example.org    '' \<and>
   includes_js (concatenated_text sample_host zero) ''0'' \<and>
   userToSearchableText sample_host zero = ''bob bob7 bob@example.org'' \<and>
   filteredUsers sample_host [zero] ''0'' = []"
  by (simp add: eval_users2)

section \<open>The scan service: proofs\<close>

subsection \<open>The parser\<close>

lemma ids_merge_record:
  "map vr_id (merge_record i s ps vs) =
     (if i \<in> set (map vr_id vs) then map vr_id vs else map vr_id vs @ [i])"
  by (induction vs) auto

lemma distinct_merge_record:
  "distinct (map vr_id vs) \<Longrightarrow> distinct (map vr_id (merge_record i s ps vs))"
  by (simp add: ids_merge_record)

lemma packages_merge_record:
  "(\<Union>r \<in> {r \<in> set (merge_record i s ps vs). vr_id r = j}. set (vr_packages r)) =
     (\<Union>r \<in> {r \<in> set vs. vr_id r = j}. set (vr_packages r)) \<union> (if j = i then set ps else {})"
  by (induction vs) (auto split: if_splits)

lemma parse_from_ids:
  "set (map vr_id (fst (parse_from (vs, n) raws))) = set (map vr_id vs) \<union> set (lines_identifiers raws)"
  by (induction "(vs, n)" raws arbitrary: vs n rule: parse_from.induct)
    (auto simp: ids_merge_record split: if_splits)

lemma parse_from_distinct:
  "distinct (map vr_id vs) \<Longrightarrow> distinct (map vr_id (fst (parse_from (vs, n) raws)))"
  by (induction "(vs, n)" raws arbitrary: vs n rule: parse_from.induct)
    (auto simp: distinct_merge_record)

lemma parse_from_packages:
  "(\<Union>r \<in> {r \<in> set (fst (parse_from (vs, n) raws)). vr_id r = j}. set (vr_packages r)) =
     (\<Union>r \<in> {r \<in> set vs. vr_id r = j}. set (vr_packages r)) \<union> set (lines_packages j raws)"
proof (induction "(vs, n)" raws arbitrary: vs n rule: parse_from.induct)
  case 1
  then show ?case by simp
next
  case (2 vs n raws)
  then show ?case by simp
next
  case (3 vs n i s ps raws)
  show ?case
    unfolding parse_from.simps "3.hyps" packages_merge_record
    by auto
qed

lemma parse_from_errors:
  "snd (parse_from (vs, n) raws) = n + length (filter (\<lambda>l. l = Malformed) raws)"
  by (induction "(vs, n)" raws arbitrary: vs n rule: parse_from.induct) auto

lemma parse_output_distinct: "distinct (map vr_id (fst (parse_output raws)))"
  by (simp add: parse_output_def parse_from_distinct)

lemma parse_output_packages:
  assumes "r \<in> set (fst (parse_output raws))"
  shows "set (vr_packages r) = set (lines_packages (vr_id r) raws)"
proof -
  have d: "distinct (map vr_id (fst (parse_output raws)))" by (rule parse_output_distinct)
  have "{r' \<in> set (fst (parse_output raws)). vr_id r' = vr_id r} = {r}"
    using assms d by (auto simp: distinct_map inj_on_def)
  then have "(\<Union>r' \<in> {r' \<in> set (fst (parse_output raws)). vr_id r' = vr_id r}. set (vr_packages r'))
      = set (vr_packages r)" by simp
  then show ?thesis
    using parse_from_packages [of "[]" 0 raws "vr_id r"] by (simp add: parse_output_def)
qed

subsection \<open>Resolution keeps the records\<close>

lemma resolve_all_shape:
  "map (\<lambda>r. (vr_id r, vr_status r, vr_packages r)) (fst (resolve_all cfg auth now rs st)) =
     map (\<lambda>r. (vr_id r, vr_status r, vr_packages r)) rs"
proof (induction rs arbitrary: st)
  case Nil
  then show ?case by simp
next
  case (Cons r rs)
  obtain res st1 where a: "resolve cfg auth now (vr_id r) st = (res, st1)"
    by (cases "resolve cfg auth now (vr_id r) st")
  obtain rs' st2 where b: "resolve_all cfg auth now rs st1 = (rs', st2)"
    by (cases "resolve_all cfg auth now rs st1")
  from Cons.IH [of st1] b show ?case by (simp add: a)
qed

lemma resolve_all_ids: "map vr_id (fst (resolve_all cfg auth now rs st)) = map vr_id rs"
proof -
  have "map fst (map (\<lambda>r. (vr_id r, vr_status r, vr_packages r)) (fst (resolve_all cfg auth now rs st)))
      = map fst (map (\<lambda>r. (vr_id r, vr_status r, vr_packages r)) rs)"
    by (simp only: resolve_all_shape)
  then show ?thesis by (simp add: comp_def)
qed

lemma resolve_all_packages:
  assumes "r \<in> set (fst (resolve_all cfg auth now rs st))"
  shows "\<exists>r0 \<in> set rs. vr_id r0 = vr_id r \<and> vr_packages r0 = vr_packages r"
proof -
  have "(vr_id r, vr_status r, vr_packages r)
      \<in> set (map (\<lambda>r. (vr_id r, vr_status r, vr_packages r)) (fst (resolve_all cfg auth now rs st)))"
    using assms by force
  then have "(vr_id r, vr_status r, vr_packages r)
      \<in> set (map (\<lambda>r. (vr_id r, vr_status r, vr_packages r)) rs)"
    by (simp only: resolve_all_shape)
  then show ?thesis by auto
qed

lemma resolved_records_distinct:
  "distinct (map vr_id (fst (resolved_records cfg auth now raws st)))"
  by (simp add: resolved_records_def resolve_all_ids parse_output_distinct)

lemma resolved_records_packages:
  assumes "r \<in> set (fst (resolved_records cfg auth now raws st))"
  shows "set (vr_packages r) = set (lines_packages (vr_id r) raws)"
proof -
  from assms obtain r0 where "r0 \<in> set (fst (parse_output raws))"
    "vr_id r0 = vr_id r" "vr_packages r0 = vr_packages r"
    unfolding resolved_records_def by (blast dest: resolve_all_packages)
  with parse_output_packages [of r0 raws] show ?thesis by simp
qed

subsection \<open>The response\<close>

lemma run_scan_records:
  "\<exists>resp st'. run_scan cfg auth now req (Inr raws) st = (Inr resp, st') \<and>
     vulnerabilities resp = filter (keep_record req) (fst (resolved_records cfg auth now raws st))"
  by (simp add: run_scan_def Let_def split: prod.splits)

text \<open>
  Claim C2, on the model of the specification. A scan whose remote session succeeds returns
  a response; no two records of it have the same identifier, and the packages of each record
  are the union of the package lists of the tool's lines with its identifier. The parser's
  own output has these two properties as well, and an identifier for every well-formed line.
\<close>

theorem response_identifiers_unique:
  "\<exists>resp st'. run_scan cfg auth now req (Inr raws) st = (Inr resp, st') \<and>
     distinct (map vr_id (vulnerabilities resp)) \<and>
     (\<forall>r \<in> set (vulnerabilities resp).
        set (vr_packages r) = set (lines_packages (vr_id r) raws)) \<and>
     distinct (map vr_id (fst (parse_output raws))) \<and>
     set (map vr_id (fst (parse_output raws))) = set (lines_identifiers raws) \<and>
     (\<forall>r \<in> set (fst (parse_output raws)).
        set (vr_packages r) = set (lines_packages (vr_id r) raws))"
proof -
  from run_scan_records [of cfg auth now req raws st] obtain resp st'
    where r: "run_scan cfg auth now req (Inr raws) st = (Inr resp, st')"
      and v: "vulnerabilities resp = filter (keep_record req) (fst (resolved_records cfg auth now raws st))"
    by blast
  have "distinct (map vr_id (vulnerabilities resp))"
    unfolding v by (rule distinct_map_filter) (rule resolved_records_distinct)
  moreover have "\<forall>r \<in> set (vulnerabilities resp).
        set (vr_packages r) = set (lines_packages (vr_id r) raws)"
    unfolding v by (auto dest: resolved_records_packages)
  moreover have "set (map vr_id (fst (parse_output raws))) = set (lines_identifiers raws)"
    using parse_from_ids [of "[]" 0 raws] by (simp add: parse_output_def)
  ultimately show ?thesis
    using r parse_output_distinct [of raws] parse_output_packages [of _ raws] by blast
qed

text \<open>
  Claim C3, on the model of the specification. A scan whose remote session succeeds returns
  a response, and every record of it that has a score has a base score of at least the
  requested threshold.
\<close>

theorem response_meets_threshold:
  "\<exists>resp st'. run_scan cfg auth now req (Inr raws) st = (Inr resp, st') \<and>
     (\<forall>r \<in> set (vulnerabilities resp). \<forall>p. vr_score r = Some p \<longrightarrow> vuln_score req \<le> base p)"
proof -
  from run_scan_records [of cfg auth now req raws st] obtain resp st'
    where r: "run_scan cfg auth now req (Inr raws) st = (Inr resp, st')"
      and v: "vulnerabilities resp = filter (keep_record req) (fst (resolved_records cfg auth now raws st))"
    by blast
  have "\<forall>r \<in> set (vulnerabilities resp). \<forall>p. vr_score r = Some p \<longrightarrow> vuln_score req \<le> base p"
    unfolding v by (auto simp: keep_record_def)
  with r show ?thesis by blast
qed

text \<open>
  Claim C4, on the model of the specification. A scan whose remote session succeeds returns
  a response; when \<open>show_unscored\<close> is false every record of it has a score; and a record whose
  resolution gave no score is in the response exactly when \<open>show_unscored\<close> is true.
\<close>

theorem unscored_records_kept_on_request:
  "\<exists>resp st'. run_scan cfg auth now req (Inr raws) st = (Inr resp, st') \<and>
     (\<not> show_unscored req \<longrightarrow> (\<forall>r \<in> set (vulnerabilities resp). vr_score r \<noteq> None)) \<and>
     (\<forall>r \<in> set (fst (resolved_records cfg auth now raws st)).
        vr_score r = None \<longrightarrow> (r \<in> set (vulnerabilities resp) \<longleftrightarrow> show_unscored req))"
proof -
  from run_scan_records [of cfg auth now req raws st] obtain resp st'
    where r: "run_scan cfg auth now req (Inr raws) st = (Inr resp, st')"
      and v: "vulnerabilities resp = filter (keep_record req) (fst (resolved_records cfg auth now raws st))"
    by blast
  have "\<not> show_unscored req \<longrightarrow> (\<forall>r \<in> set (vulnerabilities resp). vr_score r \<noteq> None)"
    unfolding v by (auto simp: keep_record_def split: option.splits)
  moreover have "\<forall>r \<in> set (fst (resolved_records cfg auth now raws st)).
        vr_score r = None \<longrightarrow> (r \<in> set (vulnerabilities resp) \<longleftrightarrow> show_unscored req)"
    unfolding v by (auto simp: keep_record_def split: option.splits)
  ultimately show ?thesis using r by blast
qed

subsection \<open>A scan evaluated\<close>

lemmas eval_scan =
  run_scan_def resolved_records_def parse_output_def resolve_def cache_get_def cache_put_def
  keep_record_def day_cache_def cold_def nvd_def debsecan_output_def List.union_def
  List.insert_def Let_def

lemma sample_scan_strict:
  "fst (run_scan day_cache nvd 1000 \<lparr>vuln_score = 7, show_unscored = False\<rparr> (Inr debsecan_output) cold)
     = Inr \<lparr>vulnerabilities =
              [\<lparr>vr_id = ''CVE-2013-7445'', vr_status = ''unknown'',
                vr_packages = [(''linux-headers'', ''6.12.47-1''), (''linux-image'', ''6.12.47-1'')],
                vr_score = Some \<lparr>base = 39 / 5, version = V2\<rparr>\<rparr>],
            summary =
              \<lparr>threshold_cvss = 7, matched_cvss_ge_threshold = 1, no_cvss_metrics = 1,
               parse_errors = 1, total_cves_seen = 3, total_records_output = 1\<rparr>\<rparr>"
  by (simp add: eval_scan)

lemma sample_scan_all:
  "fst (run_scan day_cache nvd 1000 \<lparr>vuln_score = 0, show_unscored = True\<rparr> (Inr debsecan_output) cold)
     = Inr \<lparr>vulnerabilities =
              [\<lparr>vr_id = ''CVE-2013-7445'', vr_status = ''unknown'',
                vr_packages = [(''linux-headers'', ''6.12.47-1''), (''linux-image'', ''6.12.47-1'')],
                vr_score = Some \<lparr>base = 39 / 5, version = V2\<rparr>\<rparr>,
               \<lparr>vr_id = ''CVE-2024-0001'', vr_status = ''fixed'',
                vr_packages = [(''openssl'', ''3.0.1'')],
                vr_score = Some \<lparr>base = 5, version = V31\<rparr>\<rparr>,
               \<lparr>vr_id = ''CVE-2020-9999'', vr_status = ''unknown'',
                vr_packages = [(''zlib'', ''1.2'')], vr_score = None\<rparr>],
            summary =
              \<lparr>threshold_cvss = 0, matched_cvss_ge_threshold = 2, no_cvss_metrics = 1,
               parse_errors = 1, total_cves_seen = 3, total_records_output = 3\<rparr>\<rparr>"
  by (simp add: eval_scan)

subsection \<open>The cache of the model\<close>

text \<open>
  With the cache enabled: a resolution that misses the cache and whose lookup yields a score
  issues one external lookup and writes the entry with the current time. While that entry is
  younger than the TTL, a resolution returns its score, issues no lookup and leaves the state
  as it is. Once the entry is as old as the TTL, a resolution issues one external lookup,
  returns what it yields, and a score it yields overwrites the entry with the current time.
\<close>

lemma resolve_round_trip:
  assumes "cache_enabled cfg"
  shows
    "(cache_get cfg ta st i = None \<and> auth ta i = Some p \<longrightarrow>
        resolve cfg auth ta i st =
          (Some p, st\<lparr>cache := (cache st)(i \<mapsto> \<lparr>payload = p, resolved_at = ta\<rparr>),
                     lookup_log := (ta, i) # lookup_log st\<rparr>)) \<and>
     (cache s i = Some \<lparr>payload = p, resolved_at = ta\<rparr> \<and> tb - ta < cache_ttl cfg \<longrightarrow>
        resolve cfg auth tb i s = (Some p, s)) \<and>
     (cache s i = Some \<lparr>payload = p, resolved_at = ta\<rparr> \<and> cache_ttl cfg \<le> tc - ta \<longrightarrow>
        fst (resolve cfg auth tc i s) = auth tc i \<and>
        lookup_log (snd (resolve cfg auth tc i s)) = (tc, i) # lookup_log s \<and>
        (\<forall>p'. auth tc i = Some p' \<longrightarrow>
           cache (snd (resolve cfg auth tc i s)) i = Some \<lparr>payload = p', resolved_at = tc\<rparr>))"
  using assms
  by (auto simp: resolve_def cache_get_def cache_put_def Let_def split: option.splits)

text \<open>
  A lookup that yields no score writes nothing: the authority has no score for
  CVE-2020-9999, and two resolutions ten seconds apart issue two external lookups. So do two
  resolutions of a scored identifier when the cache is disabled.
\<close>

lemma resolve_without_entry:
  "nvd 0 ''CVE-2020-9999'' = None \<and>
   lookup_log
     (snd (resolve day_cache nvd 10 ''CVE-2020-9999''
        (snd (resolve day_cache nvd 0 ''CVE-2020-9999'' cold))))
     = [(10, ''CVE-2020-9999''), (0, ''CVE-2020-9999'')] \<and>
   lookup_log
     (snd (resolve \<lparr>cache_enabled = False, cache_ttl = 86400\<rparr> nvd 10 ''CVE-2013-7445''
        (snd (resolve \<lparr>cache_enabled = False, cache_ttl = 86400\<rparr> nvd 0 ''CVE-2013-7445'' cold))))
     = [(10, ''CVE-2013-7445''), (0, ''CVE-2013-7445'')]"
  by (simp add: eval_scan)

text \<open>
  At a TTL of one day: a lookup at time 0, none at 86399, a second one at 86400 that
  overwrites the entry.
\<close>

lemma resolve_round_trip_day:
  "cache_enabled day_cache \<and>
   resolve day_cache nvd 0 ''CVE-2013-7445'' cold
     = (Some \<lparr>base = 39 / 5, version = V2\<rparr>,
        \<lparr>cache = (\<lambda>i. None)(''CVE-2013-7445'' \<mapsto>
                    \<lparr>payload = \<lparr>base = 39 / 5, version = V2\<rparr>, resolved_at = 0\<rparr>),
         lookup_log = [(0, ''CVE-2013-7445'')]\<rparr>) \<and>
   lookup_log
     (snd (resolve day_cache nvd 86399 ''CVE-2013-7445''
        (snd (resolve day_cache nvd 0 ''CVE-2013-7445'' cold))))
     = [(0, ''CVE-2013-7445'')] \<and>
   lookup_log
     (snd (resolve day_cache nvd 86400 ''CVE-2013-7445''
        (snd (resolve day_cache nvd 0 ''CVE-2013-7445'' cold))))
     = [(86400, ''CVE-2013-7445''), (0, ''CVE-2013-7445'')] \<and>
   cache
     (snd (resolve day_cache nvd 86400 ''CVE-2013-7445''
        (snd (resolve day_cache nvd 0 ''CVE-2013-7445'' cold)))) ''CVE-2013-7445''
     = Some \<lparr>payload = \<lparr>base = 39 / 5, version = V2\<rparr>, resolved_at = 86400\<rparr>"
proof -
  have e: "cache_enabled day_cache" by (simp add: day_cache_def)
  have m: "cache_get day_cache 0 cold ''CVE-2013-7445'' = None"
    by (simp add: cache_get_def cold_def)
  have n: "nvd 0 ''CVE-2013-7445'' = Some \<lparr>base = 39 / 5, version = V2\<rparr>"
    "nvd 86400 ''CVE-2013-7445'' = Some \<lparr>base = 39 / 5, version = V2\<rparr>"
    by (simp_all add: nvd_def)
  have t: "cache_ttl day_cache = 86400" by (simp add: day_cache_def)
  let ?s0 = "cold\<lparr>cache := (cache cold)(''CVE-2013-7445'' \<mapsto>
      \<lparr>payload = \<lparr>base = 39 / 5, version = V2\<rparr>, resolved_at = 0\<rparr>),
      lookup_log := (0, ''CVE-2013-7445'') # lookup_log cold\<rparr>"
  have c: "cache ?s0 ''CVE-2013-7445'' = Some \<lparr>payload = \<lparr>base = 39 / 5, version = V2\<rparr>, resolved_at = 0\<rparr>"
    by simp
  note rt = resolve_round_trip [OF e, where ta = 0 and st = cold and i = "''CVE-2013-7445''"
      and auth = nvd and p = "\<lparr>base = 39 / 5, version = V2\<rparr>" and s = ?s0]
  from rt m n have r0: "resolve day_cache nvd 0 ''CVE-2013-7445'' cold
      = (Some \<lparr>base = 39 / 5, version = V2\<rparr>, ?s0)" by blast
  from rt [where tb = 86399] c t have r1: "resolve day_cache nvd 86399 ''CVE-2013-7445'' ?s0
      = (Some \<lparr>base = 39 / 5, version = V2\<rparr>, ?s0)" by simp
  from rt [where tc = 86400] c t n have r2:
    "lookup_log (snd (resolve day_cache nvd 86400 ''CVE-2013-7445'' ?s0))
       = (86400, ''CVE-2013-7445'') # lookup_log ?s0"
    "cache (snd (resolve day_cache nvd 86400 ''CVE-2013-7445'' ?s0)) ''CVE-2013-7445''
       = Some \<lparr>payload = \<lparr>base = 39 / 5, version = V2\<rparr>, resolved_at = 86400\<rparr>"
    by simp_all
  from e r0 r1 r2 show ?thesis by (simp add: cold_def)
qed

subsection \<open>The claims on a scan evaluated\<close>

text \<open>
  Claim C2 at a scan of five lines, one malformed, two of them for CVE-2013-7445: three
  records, the first with the two packages of its two lines.
\<close>

theorem response_identifiers_unique_witness:
  "fst (run_scan day_cache nvd 1000 \<lparr>vuln_score = 0, show_unscored = True\<rparr> (Inr debsecan_output) cold)
     = Inr \<lparr>vulnerabilities =
              [\<lparr>vr_id = ''CVE-2013-7445'', vr_status = ''unknown'',
                vr_packages = [(''linux-headers'', ''6.12.47-1''), (''linux-image'', ''6.12.47-1'')],
                vr_score = Some \<lparr>base = 39 / 5, version = V2\<rparr>\<rparr>,
               \<lparr>vr_id = ''CVE-2024-0001'', vr_status = ''fixed'',
                vr_packages = [(''openssl'', ''3.0.1'')],
                vr_score = Some \<lparr>base = 5, version = V31\<rparr>\<rparr>,
               \<lparr>vr_id = ''CVE-2020-9999'', vr_status = ''unknown'',
                vr_packages = [(''zlib'', ''1.2'')], vr_score = None\<rparr>],
            summary =
              \<lparr>threshold_cvss = 0, matched_cvss_ge_threshold = 2, no_cvss_metrics = 1,
               parse_errors = 1, total_cves_seen = 3, total_records_output = 3\<rparr>\<rparr> \<and>
   lines_identifiers debsecan_output
     = [''CVE-2013-7445'', ''CVE-2024-0001'', ''CVE-2013-7445'', ''CVE-2020-9999''] \<and>
   lines_packages ''CVE-2013-7445'' debsecan_output
     = [(''linux-image'', ''6.12.47-1''), (''linux-headers'', ''6.12.47-1''),
        (''linux-image'', ''6.12.47-1'')] \<and>
   distinct (map vr_id (fst (parse_output debsecan_output))) \<and>
   set (map vr_id (fst (parse_output debsecan_output)))
     = {''CVE-2013-7445'', ''CVE-2024-0001'', ''CVE-2020-9999''}"
proof -
  have l: "lines_identifiers debsecan_output
     = [''CVE-2013-7445'', ''CVE-2024-0001'', ''CVE-2013-7445'', ''CVE-2020-9999'']"
    by (simp add: debsecan_output_def)
  have k: "lines_packages ''CVE-2013-7445'' debsecan_output
     = [(''linux-image'', ''6.12.47-1''), (''linux-headers'', ''6.12.47-1''),
        (''linux-image'', ''6.12.47-1'')]"
    by (simp add: debsecan_output_def)
  from response_identifiers_unique
    [of day_cache nvd 1000 "\<lparr>vuln_score = 0, show_unscored = True\<rparr>" debsecan_output cold]
  have "distinct (map vr_id (fst (parse_output debsecan_output))) \<and>
     set (map vr_id (fst (parse_output debsecan_output))) = set (lines_identifiers debsecan_output)"
    by blast
  with l k sample_scan_all show ?thesis by auto
qed

text \<open>Claim C3 at the same scan with threshold 7: the record of score 7.8 remains.\<close>

theorem response_meets_threshold_witness:
  "fst (run_scan day_cache nvd 1000 \<lparr>vuln_score = 7, show_unscored = False\<rparr> (Inr debsecan_output) cold)
     = Inr \<lparr>vulnerabilities =
              [\<lparr>vr_id = ''CVE-2013-7445'', vr_status = ''unknown'',
                vr_packages = [(''linux-headers'', ''6.12.47-1''), (''linux-image'', ''6.12.47-1'')],
                vr_score = Some \<lparr>base = 39 / 5, version = V2\<rparr>\<rparr>],
            summary =
              \<lparr>threshold_cvss = 7, matched_cvss_ge_threshold = 1, no_cvss_metrics = 1,
               parse_errors = 1, total_cves_seen = 3, total_records_output = 1\<rparr>\<rparr> \<and>
   list_all (\<lambda>r. case vr_score r of Some p \<Rightarrow> 7 \<le> base p | None \<Rightarrow> True)
     (vulnerabilities
        (projr (fst (run_scan day_cache nvd 1000 \<lparr>vuln_score = 7, show_unscored = False\<rparr>
           (Inr debsecan_output) cold))))"
proof -
  from response_meets_threshold
    [of day_cache nvd 1000 "\<lparr>vuln_score = 7, show_unscored = False\<rparr>" debsecan_output cold]
  obtain resp st' where
    r: "run_scan day_cache nvd 1000 \<lparr>vuln_score = 7, show_unscored = False\<rparr> (Inr debsecan_output) cold
        = (Inr resp, st')"
    and t: "\<forall>r \<in> set (vulnerabilities resp). \<forall>p. vr_score r = Some p \<longrightarrow> 7 \<le> base p"
    by auto
  from t have "list_all (\<lambda>r. case vr_score r of Some p \<Rightarrow> 7 \<le> base p | None \<Rightarrow> True)
     (vulnerabilities resp)"
    by (auto simp: list_all_iff split: option.splits)
  with r sample_scan_strict show ?thesis by simp
qed

text \<open>
  Claim C4 at the same scan with threshold 7: the unscored CVE-2020-9999 is returned with
  \<open>show_unscored\<close>, and not without; the record of score 5 is returned in neither case.
\<close>

theorem unscored_records_kept_on_request_witness:
  "map vr_id (vulnerabilities (projr (fst (run_scan day_cache nvd 1000
      \<lparr>vuln_score = 7, show_unscored = False\<rparr> (Inr debsecan_output) cold))))
     = [''CVE-2013-7445''] \<and>
   map vr_id (vulnerabilities (projr (fst (run_scan day_cache nvd 1000
      \<lparr>vuln_score = 7, show_unscored = True\<rparr> (Inr debsecan_output) cold))))
     = [''CVE-2013-7445'', ''CVE-2020-9999''] \<and>
   list_all (\<lambda>r. vr_score r \<noteq> None)
     (vulnerabilities (projr (fst (run_scan day_cache nvd 1000
        \<lparr>vuln_score = 7, show_unscored = False\<rparr> (Inr debsecan_output) cold))))"
proof -
  have a: "map vr_id (vulnerabilities (projr (fst (run_scan day_cache nvd 1000
      \<lparr>vuln_score = 7, show_unscored = True\<rparr> (Inr debsecan_output) cold))))
     = [''CVE-2013-7445'', ''CVE-2020-9999'']"
    by (simp add: eval_scan)
  from unscored_records_kept_on_request
    [of day_cache nvd 1000 "\<lparr>vuln_score = 7, show_unscored = False\<rparr>" debsecan_output cold]
  obtain resp st' where
    r: "run_scan day_cache nvd 1000 \<lparr>vuln_score = 7, show_unscored = False\<rparr> (Inr debsecan_output) cold
        = (Inr resp, st')"
    and t: "\<forall>r \<in> set (vulnerabilities resp). vr_score r \<noteq> None"
    by auto
  from t have "list_all (\<lambda>r. vr_score r \<noteq> None) (vulnerabilities resp)"
    by (simp add: list_all_iff)
  with r a sample_scan_strict show ?thesis by simp
qed

end
